theory Spec2Isabelle
  imports Complex_Main
begin

section \<open>The RTS core of \<^verbatim>\<open>src/rts/rts.py\<close>: data model\<close>

text \<open>
  The simulation mutates shared Python objects: a unit is referenced from its owner's
  unit list, from the map's unit list, from production queues and from other units
  (\<^verbatim>\<open>obsession\<close>, \<^verbatim>\<open>toBuild\<close>).  The embedding therefore keeps an explicit store:
  a reference \<open>Ref c n\<close> stands for the object with identity \<open>n\<close> whose (immutable)
  class is \<open>c\<close>; the store \<open>heap\<close> maps a reference to the object's attributes.
  Floats are idealised as reals; Python's \<^verbatim>\<open>int(...)\<close> is truncation towards zero.
  Rendering, sound, selection bookkeeping of the HUD and the computer player's private
  index lists are outside the model.
\<close>

subsection \<open>Classes\<close>

datatype cls =
    Builder | Spearman | Swordsman | Horseman | BrianBoru | Sigurd
  | Barracks | Stables | ComandCenter | Tara | SupplyDepot

text \<open>\<^verbatim>\<open>isinstance\<close> tests, following the class hierarchy of the source.\<close>

fun is_Hero :: "cls \<Rightarrow> bool" where
  "is_Hero BrianBoru = True"
| "is_Hero Sigurd = True"
| "is_Hero _ = False"

fun is_OffensiveInfantry :: "cls \<Rightarrow> bool" where
  "is_OffensiveInfantry Spearman = True"
| "is_OffensiveInfantry Swordsman = True"
| "is_OffensiveInfantry Horseman = True"
| "is_OffensiveInfantry BrianBoru = True"
| "is_OffensiveInfantry Sigurd = True"
| "is_OffensiveInfantry _ = False"

fun is_Infantry :: "cls \<Rightarrow> bool" where
  "is_Infantry Builder = True"
| "is_Infantry c = is_OffensiveInfantry c"

fun is_ComandCenter :: "cls \<Rightarrow> bool" where
  "is_ComandCenter ComandCenter = True"
| "is_ComandCenter Tara = True"
| "is_ComandCenter _ = False"

fun is_SupplyDepot :: "cls \<Rightarrow> bool" where
  "is_SupplyDepot SupplyDepot = True"
| "is_SupplyDepot _ = False"

fun is_Building :: "cls \<Rightarrow> bool" where
  "is_Building Barracks = True"
| "is_Building Stables = True"
| "is_Building ComandCenter = True"
| "is_Building Tara = True"
| "is_Building SupplyDepot = True"
| "is_Building _ = False"

datatype uref = Ref cls nat

fun cls_of :: "uref \<Rightarrow> cls" where
  "cls_of (Ref c n) = c"

datatype pid = HumanPlayer | ComputerPlayer

subsection \<open>Rectangles (pygame.Rect)\<close>

record Rect =
  rect_x :: int
  rect_y :: int
  rect_width :: int
  rect_height :: int

text \<open>
  \<^verbatim>\<open>pygame.Rect.colliderect\<close> is library code; this is the test pygame 2 performs:
  rectangles of zero width or height collide with nothing, and touching edges do not
  count as an overlap.
\<close>

definition colliderect :: "Rect \<Rightarrow> Rect \<Rightarrow> bool" where
  "colliderect a b =
     (if rect_width a = 0 \<or> rect_height a = 0 \<or> rect_width b = 0 \<or> rect_height b = 0
      then False
      else min (rect_x a) (rect_x a + rect_width a) < max (rect_x b) (rect_x b + rect_width b)
         \<and> min (rect_y a) (rect_y a + rect_height a) < max (rect_y b) (rect_y b + rect_height b)
         \<and> max (rect_x a) (rect_x a + rect_width a) > min (rect_x b) (rect_x b + rect_width b)
         \<and> max (rect_y a) (rect_y a + rect_height a) > min (rect_y b) (rect_y b + rect_height b))"

subsection \<open>Units, players, the map and the game\<close>

record Unit =
  master :: pid
  side :: int
  rect :: Rect
  fx :: real
  fy :: real
  selected :: bool
  health :: real
  maxHealth :: real
  cost :: int
  defense :: int
  buildTime :: real
  maxBuildTime :: real
  personal_space :: Rect
  sight :: Rect
  didInitializeAfterBuild :: bool
  obsession :: "uref option"
  unitValue :: int
  speed :: int
  destinationX :: int
  destinationY :: int
  holdPosition :: bool
  ignoreEnemies :: bool
  unit_power :: int
  attackDistance :: int
  attacking :: bool
  attackMoving :: bool
  toBuild :: "uref option"
  building :: bool
  selectingToBuild :: bool
  supportedUnits :: int
  resourceIncrease :: real
  queue :: "uref list"

record Player =
  units :: "uref list"
  builder_mode :: "uref option"
  supplyDepotCount :: int
  comandCenterCount :: int
  hasHero :: bool
  supplyDepotLimit :: int
  comandCeneterLimit :: int
  attackUpgrade :: bool
  resources :: real
  totalUnitsValue :: int
  supportedUnitsValue :: int

record GMap =
  map_width :: int
  map_height :: int
  map_units :: "uref list"

record Game =
  heap :: "uref \<Rightarrow> Unit"
  game_map :: GMap
  players :: "pid \<Rightarrow> Player"

subsection \<open>Small helpers\<close>

text \<open>Python's \<^verbatim>\<open>float\<close> is the IEEE 754 binary64 format, and \<^verbatim>\<open>+\<close>, \<^verbatim>\<open>-\<close>, \<^verbatim>\<open>*\<close> on floats
  return the exact result rounded to the nearest representable number, ties to the even
  significand.  A float is held here as the real number it denotes, and \<open>fl\<close> is that
  rounding: \<open>ulp k a u\<close> searches, from the power of two \<open>u\<close> and in at most \<open>k\<close> steps, the
  spacing of the representable numbers around the magnitude \<open>a\<close>, which has
  \<open>2^52 * u \<le> a < 2^53 * u\<close> and is never below \<open>2^-1074\<close> (the subnormal range), and \<open>fl\<close>
  rounds to a multiple of it.  Overflow to infinity (magnitudes from \<open>2^1024\<close>) is not
  represented.  A float literal is the rounding of its decimal value, and an \<^verbatim>\<open>int\<close> that
  meets a float is converted exactly (every integer of the game is far below \<open>2^53\<close>).\<close>

definition round_half_even :: "real \<Rightarrow> int" where
  "round_half_even x =
     (let n = \<lfloor>x\<rfloor>; d = x - real_of_int n
      in if d < 1 / 2 then n else if 1 / 2 < d then n + 1 else if even n then n else n + 1)"

fun ulp :: "nat \<Rightarrow> real \<Rightarrow> real \<Rightarrow> real" where
  "ulp 0 a u = u"
| "ulp (Suc k) a u =
     (if 2 ^ 53 * u \<le> a then ulp k a (2 * u)
      else if a < 2 ^ 52 * u \<and> 1 / 2 ^ 1074 < u then ulp k a (u / 2)
      else u)"

definition fl :: "real \<Rightarrow> real" where
  "fl x =
     (if x = 0 then 0
      else let u = ulp 1023 \<bar>x\<bar> (1 / 2 ^ 52)
           in real_of_int (round_half_even (x / u)) * u)"

definition fadd :: "real \<Rightarrow> real \<Rightarrow> real" where
  "fadd a b = fl (a + b)"

definition fsub :: "real \<Rightarrow> real \<Rightarrow> real" where
  "fsub a b = fl (a - b)"

definition fmul :: "real \<Rightarrow> real \<Rightarrow> real" where
  "fmul a b = fl (a * b)"

definition NOMINAL_TICK_HZ :: real where
  "NOMINAL_TICK_HZ = 60"

definition tick_scale :: "real \<Rightarrow> real" where
  "tick_scale dt = fmul dt NOMINAL_TICK_HZ"

definition clamp :: "real \<Rightarrow> real \<Rightarrow> real \<Rightarrow> real" where
  "clamp v lo hi = (if v < lo then lo else if v > hi then hi else v)"

definition py_int :: "real \<Rightarrow> int" where
  "py_int r = (if 0 \<le> r then \<lfloor>r\<rfloor> else \<lceil>r\<rceil>)"

section \<open>Map and player operations\<close>

definition Map_add_unit :: "uref \<Rightarrow> GMap \<Rightarrow> GMap" where
  "Map_add_unit r m = m\<lparr>map_units := map_units m @ [r]\<rparr>"

text \<open>\<^verbatim>\<open>list.remove\<close> deletes the first occurrence and the \<^verbatim>\<open>ValueError\<close> of a missing
  element is swallowed: exactly \<open>remove1\<close>.\<close>

definition Map_remove_unit :: "uref \<Rightarrow> GMap \<Rightarrow> GMap" where
  "Map_remove_unit r m = m\<lparr>map_units := remove1 r (map_units m)\<rparr>"

definition is_colliding_with_unit :: "Game \<Rightarrow> Rect \<Rightarrow> bool" where
  "is_colliding_with_unit g r =
     list_ex (\<lambda>q. colliderect (rect (heap g q)) r) (map_units (game_map g))"

text \<open>\<^verbatim>\<open>Infantry.get_unit_to_add\<close> charges the unit's population value to the player
  of the unit's controller; every other class returns the unit untouched.\<close>

definition get_unit_to_add :: "uref \<Rightarrow> Game \<Rightarrow> Game" where
  "get_unit_to_add r g =
     (if is_Infantry (cls_of r)
      then (let u = heap g r; q = players g (master u)
            in g\<lparr>players := (players g)
                   (master u := q\<lparr>totalUnitsValue := totalUnitsValue q + unitValue u\<rparr>)\<rparr>)
      else g)"

definition Player_add_unit :: "pid \<Rightarrow> uref \<Rightarrow> Game \<Rightarrow> bool \<times> Game" where
  "Player_add_unit i r g =
     (let u = heap g r; p = players g i in
      if is_Hero (cls_of r) \<and> hasHero p then (False, g)
      else if is_ComandCenter (cls_of r) \<and> comandCenterCount p \<ge> comandCeneterLimit p
      then (False, g)
      else
        let p1 = (if is_ComandCenter (cls_of r)
                  then p\<lparr>comandCenterCount := comandCenterCount p + 1\<rparr> else p)
        in
        if is_SupplyDepot (cls_of r) \<and> supplyDepotCount p1 \<ge> supplyDepotLimit p1
        then (False, g\<lparr>players := (players g)(i := p1)\<rparr>)
        else
          let p2 = (if is_SupplyDepot (cls_of r)
                    then p1\<lparr>supplyDepotCount := supplyDepotCount p1 + 1\<rparr> else p1);
              enough_supply =
                (if is_Infantry (cls_of r)
                 then unitValue u \<le> supportedUnitsValue p2 - totalUnitsValue p2
                 else True)
          in
          if real_of_int (cost u) < resources p2 \<and> enough_supply
          then
            let p3 = p2\<lparr>resources := resources p2 - real_of_int (cost u)\<rparr>;
                p4 = (if is_Hero (cls_of r) then p3\<lparr>hasHero := True\<rparr> else p3);
                p5 = p4\<lparr>units := units p4 @ [r]\<rparr>;
                g6 = get_unit_to_add r (g\<lparr>players := (players g)(i := p5)\<rparr>)
            in (True, g6\<lparr>game_map := Map_add_unit r (game_map g6)\<rparr>)
          else (False, g\<lparr>players := (players g)(i := p2)\<rparr>))"

text \<open>\<^verbatim>\<open>ComputerPlayer.add_unit\<close> first refuses a unit whose rectangle collides with a
  unit on the map and then defers to \<^verbatim>\<open>Player.add_unit\<close>.\<close>

definition ComputerPlayer_add_unit :: "uref \<Rightarrow> Game \<Rightarrow> bool \<times> Game" where
  "ComputerPlayer_add_unit r g =
     (if \<not> is_colliding_with_unit g (rect (heap g r))
      then Player_add_unit ComputerPlayer r g
      else (False, g))"

text \<open>Dynamic dispatch of \<^verbatim>\<open>player.add_unit(u)\<close> on the player's class.\<close>

fun add_unit :: "pid \<Rightarrow> uref \<Rightarrow> Game \<Rightarrow> bool \<times> Game" where
  "add_unit HumanPlayer r g = Player_add_unit HumanPlayer r g"
| "add_unit ComputerPlayer r g = ComputerPlayer_add_unit r g"

text \<open>\<^verbatim>\<open>Player.remove_unit\<close> (the override of the computer player only maintains its
  index lists and clears \<^verbatim>\<open>hasHero\<close> once more).\<close>

definition Player_remove_unit :: "pid \<Rightarrow> uref \<Rightarrow> Game \<Rightarrow> Game" where
  "Player_remove_unit i r g =
     (let p = players g i;
          p1 = (if is_Hero (cls_of r) then p\<lparr>hasHero := False\<rparr> else p);
          p2 = p1\<lparr>units := remove1 r (units p1)\<rparr>
      in g\<lparr>players := (players g)(i := p2),
            game_map := Map_remove_unit r (game_map g)\<rparr>)"

text \<open>In-place attribute assignment on one object of the store, and on one player.\<close>

definition upd_unit :: "uref \<Rightarrow> (Unit \<Rightarrow> Unit) \<Rightarrow> Game \<Rightarrow> Game" where
  "upd_unit r f g = g\<lparr>heap := (heap g)(r := f (heap g r))\<rparr>"

definition upd_player :: "pid \<Rightarrow> (Player \<Rightarrow> Player) \<Rightarrow> Game \<Rightarrow> Game" where
  "upd_player i f g = g\<lparr>players := (players g)(i := f (players g i))\<rparr>"

section \<open>Production queue\<close>

text \<open>\<^verbatim>\<open>ProductionQueue\<close> wraps one Python list; \<^verbatim>\<open>DequeueAction.tech_act\<close> pops its last
  element.\<close>

definition enqueue :: "'a list \<Rightarrow> 'a \<Rightarrow> bool \<times> 'a list" where
  "enqueue q obj = (if length q < 5 then (True, q @ [obj]) else (False, q))"

definition next_order :: "'a list \<Rightarrow> 'a option" where
  "next_order q = (case q of [] \<Rightarrow> None | x # _ \<Rightarrow> Some x)"

definition dequeue :: "'a list \<Rightarrow> 'a option \<times> 'a list" where
  "dequeue q = (case q of [] \<Rightarrow> (None, []) | x # xs \<Rightarrow> (Some x, xs))"

definition is_full :: "'a list \<Rightarrow> bool" where
  "is_full q = (length q \<ge> 5)"

definition queue_size :: "'a list \<Rightarrow> nat" where
  "queue_size q = length q"

definition DequeueAction_tech_act :: "'a list \<Rightarrow> 'a list" where
  "DequeueAction_tech_act q = (if q \<noteq> [] then butlast q else q)"

datatype 'a queue_op = Enqueue 'a | Dequeue | DequeueAction

fun queue_step :: "'a list \<Rightarrow> 'a queue_op \<Rightarrow> 'a list" where
  "queue_step q (Enqueue obj) = snd (enqueue q obj)"
| "queue_step q Dequeue = snd (dequeue q)"
| "queue_step q DequeueAction = DequeueAction_tech_act q"

section \<open>Unit behaviour\<close>

definition set_location :: "uref \<Rightarrow> int \<Rightarrow> int \<Rightarrow> Game \<Rightarrow> Game" where
  "set_location r x y g =
     upd_unit r (\<lambda>u. u\<lparr>fx := real_of_int x, fy := real_of_int y,
                        rect := (rect u)\<lparr>rect_x := py_int (real_of_int x),
                                         rect_y := py_int (real_of_int y)\<rparr>\<rparr>) g"

definition set_destination :: "uref \<Rightarrow> int \<Rightarrow> int \<Rightarrow> Game \<Rightarrow> Game" where
  "set_destination r x y g = upd_unit r (\<lambda>u. u\<lparr>destinationX := x, destinationY := y\<rparr>) g"

subsection \<open>Death\<close>

definition Unit_die :: "uref \<Rightarrow> Game \<Rightarrow> Game" where
  "Unit_die r g = Player_remove_unit (master (heap g r)) r g"

definition Infantry_die :: "uref \<Rightarrow> Game \<Rightarrow> Game" where
  "Infantry_die r g =
     (let g1 = Unit_die r g; u = heap g1 r
      in upd_player (master u)
           (\<lambda>p. p\<lparr>totalUnitsValue := totalUnitsValue p - unitValue u\<rparr>) g1)"

definition Building_die :: "uref \<Rightarrow> Game \<Rightarrow> Game" where
  "Building_die r g =
     (let g1 = Unit_die r g; u = heap g1 r
      in upd_player (master u)
           (\<lambda>p. p\<lparr>supportedUnitsValue := supportedUnitsValue p - supportedUnits u\<rparr>) g1)"

definition ComandCenter_die :: "uref \<Rightarrow> Game \<Rightarrow> Game" where
  "ComandCenter_die r g =
     (let g1 = Building_die r g
      in upd_player (master (heap g1 r))
           (\<lambda>p. p\<lparr>comandCenterCount := comandCenterCount p - 1\<rparr>) g1)"

definition SupplyDepot_die :: "uref \<Rightarrow> Game \<Rightarrow> Game" where
  "SupplyDepot_die r g =
     (let g1 = Building_die r g
      in upd_player (master (heap g1 r))
           (\<lambda>p. p\<lparr>supplyDepotCount := supplyDepotCount p - 1\<rparr>) g1)"

text \<open>Dynamic dispatch of \<^verbatim>\<open>self.die()\<close>.\<close>

definition die :: "uref \<Rightarrow> Game \<Rightarrow> Game" where
  "die r g =
     (if is_Infantry (cls_of r) then Infantry_die r g
      else if is_ComandCenter (cls_of r) then ComandCenter_die r g
      else if is_SupplyDepot (cls_of r) then SupplyDepot_die r g
      else Building_die r g)"

subsection \<open>\<^verbatim>\<open>Unit.act\<close>\<close>

definition Unit_act :: "uref \<Rightarrow> Game \<Rightarrow> Game" where
  "Unit_act r g =
     (let u = heap g r in
      if health u > 0
      then upd_unit r
             (\<lambda>u. u\<lparr>personal_space :=
                       \<lparr>rect_x = rect_x (rect u) - 3, rect_y = rect_y (rect u) - 3,
                        rect_width = rect_width (rect u) + 6,
                        rect_height = rect_height (rect u) + 6\<rparr>,
                     sight :=
                       \<lparr>rect_x = rect_x (rect u) - 300, rect_y = rect_y (rect u) - 300,
                        rect_width = rect_width (rect u) + 600,
                        rect_height = rect_height (rect u) + 600\<rparr>\<rparr>) g
      else die r g)"

definition units_in_sight :: "uref \<Rightarrow> Game \<Rightarrow> uref list" where
  "units_in_sight r g =
     filter (\<lambda>q. colliderect (rect (heap g q)) (sight (heap g r))) (map_units (game_map g))"

subsection \<open>Movement\<close>

definition at_destination :: "Unit \<Rightarrow> bool" where
  "at_destination u =
     (rect_x (rect u) + 1 > destinationX u \<and> rect_x (rect u) - 1 < destinationX u
      \<and> rect_y (rect u) + 1 > destinationY u \<and> rect_y (rect u) - 1 < destinationY u)"

text \<open>\<^verbatim>\<open>Infantry.get_next_logical_location\<close>: the returned pair and the store in which
  \<^verbatim>\<open>fx\<close>, \<^verbatim>\<open>fy\<close> hold the clamped target.\<close>

definition Infantry_get_next_logical_location ::
    "real \<Rightarrow> uref \<Rightarrow> Game \<Rightarrow> (int \<times> int) \<times> Game" where
  "Infantry_get_next_logical_location dt r g =
     (let u = heap g r;
          s = tick_scale dt;
          spd = fmul (real_of_int (speed u)) s;
          tx = (if fadd (fx u) spd > real_of_int (destinationX u)
                   \<and> fsub (fx u) spd < real_of_int (destinationX u)
                then real_of_int (destinationX u)
                else if real_of_int (destinationX u) > fx u then fadd (fx u) spd
                else fsub (fx u) spd);
          ty = (if fadd (fy u) spd > real_of_int (destinationY u)
                   \<and> fsub (fy u) spd < real_of_int (destinationY u)
                then real_of_int (destinationY u)
                else if real_of_int (destinationY u) < fy u then fsub (fy u) spd
                else fadd (fy u) spd);
          m = game_map g;
          tx' = clamp tx 0 (real_of_int (map_width m - rect_width (rect u)));
          ty' = clamp ty 0 (real_of_int (map_height m - rect_height (rect u)))
      in ((py_int tx', py_int ty'), upd_unit r (\<lambda>u. u\<lparr>fx := tx', fy := ty'\<rparr>) g))"

text \<open>\<^verbatim>\<open>OffensiveInfantry.get_next_logical_location\<close>: a unit that holds its position
  answers with its current position; otherwise it may first retarget to the first enemy
  in sight.\<close>

definition OffensiveInfantry_get_next_logical_location ::
    "real \<Rightarrow> uref \<Rightarrow> Game \<Rightarrow> (int \<times> int) \<times> Game" where
  "OffensiveInfantry_get_next_logical_location dt r g =
     (let u = heap g r in
      if holdPosition u then ((py_int (fx u), py_int (fy u)), g)
      else
        let g1 =
          (if \<not> ignoreEnemies u \<and> (obsession u = None \<or> at_destination u \<or> attackMoving u)
           then (case find (\<lambda>q. side (heap g q) \<noteq> side u \<and> \<not> attacking u)
                        (units_in_sight r g) of
                   None \<Rightarrow> g
                 | Some q \<Rightarrow>
                     upd_unit r (\<lambda>u. u\<lparr>obsession := Some q,
                                        destinationX := rect_x (rect (heap g q)),
                                        destinationY := rect_y (rect (heap g q))\<rparr>) g)
           else g)
        in Infantry_get_next_logical_location dt r g1)"

definition get_next_logical_location ::
    "real \<Rightarrow> uref \<Rightarrow> Game \<Rightarrow> (int \<times> int) \<times> Game" where
  "get_next_logical_location dt r g =
     (if is_OffensiveInfantry (cls_of r)
      then OffensiveInfantry_get_next_logical_location dt r g
      else Infantry_get_next_logical_location dt r g)"

definition Infantry_act :: "real \<Rightarrow> uref \<Rightarrow> Game \<Rightarrow> Game" where
  "Infantry_act dt r g =
     (let g1 = Unit_act r g;
          (n, g2) = get_next_logical_location dt r g1
      in set_location r (fst n) (snd n) g2)"

subsection \<open>Combat\<close>

text \<open>\<^verbatim>\<open>OffensiveInfantry.attack\<close>.  The argument \<open>rnd\<close> is the value
  \<^verbatim>\<open>random.randint(0, 1)\<close> yields if it is called; it is consulted only on the branch
  that calls it.\<close>

definition attack :: "int \<Rightarrow> uref \<Rightarrow> uref \<Rightarrow> Game \<Rightarrow> Game" where
  "attack rnd a obss g =
     (let g1 = upd_unit a (\<lambda>u. u\<lparr>attacking := True, attackMoving := False\<rparr>) g;
          damage0 = unit_power (heap g1 a) - defense (heap g1 obss);
          damage = (if damage0 < 1 then rnd else damage0);
          g2 = (if attackUpgrade (players g1 (master (heap g1 a)))
                then upd_unit obss (\<lambda>u. u\<lparr>health := health u - real_of_int (damage + 2)\<rparr>) g1
                else upd_unit obss (\<lambda>u. u\<lparr>health := health u - real_of_int damage\<rparr>) g1)
      in if health (heap g2 obss) < 1
         then upd_unit a (\<lambda>u. u\<lparr>obsession := None, holdPosition := False\<rparr>) g2
         else g2)"

text \<open>\<^verbatim>\<open>OffensiveInfantry.act\<close>.  The constructor binds \<^verbatim>\<open>attack_range\<close> to the very
  \<^verbatim>\<open>Rect\<close> object held in \<^verbatim>\<open>personal_space\<close>, so both names denote one field here.\<close>

definition OffensiveInfantry_act :: "real \<Rightarrow> int \<Rightarrow> uref \<Rightarrow> Game \<Rightarrow> Game" where
  "OffensiveInfantry_act dt rnd r g =
     (let g1 = (if health (heap g r) > 0
                then upd_unit r
                       (\<lambda>u. u\<lparr>personal_space :=
                          \<lparr>rect_x = rect_x (rect u) - attackDistance u,
                           rect_y = rect_y (rect u) - attackDistance u,
                           rect_width = rect_width (rect u) + attackDistance u * 2,
                           rect_height = rect_height (rect u) + attackDistance u * 2\<rparr>\<rparr>) g
                else g);
          g2 = (if at_destination (heap g1 r)
                then upd_unit r (\<lambda>u. u\<lparr>ignoreEnemies := False, attackMoving := False\<rparr>) g1
                else g1);
          g3 = Infantry_act dt r g2;
          g4 = upd_unit r (\<lambda>u. u\<lparr>attacking := False\<rparr>) g3;
          u = heap g4 r
      in case obsession u of
           None \<Rightarrow> upd_unit r (\<lambda>u. u\<lparr>holdPosition := False\<rparr>) g4
         | Some obss \<Rightarrow>
             if \<not> ignoreEnemies u \<and> side (heap g4 obss) \<noteq> side u
                \<and> colliderect (personal_space u) (personal_space (heap g4 obss))
                \<and> health u > 0
             then attack rnd r obss (upd_unit r (\<lambda>u. u\<lparr>holdPosition := True\<rparr>) g4)
             else upd_unit r (\<lambda>u. u\<lparr>holdPosition := False\<rparr>) g4)"

text \<open>\<^verbatim>\<open>BrianBoru.act\<close> and \<^verbatim>\<open>Sigurd.act\<close> (the two bodies are identical).\<close>

definition Hero_act :: "real \<Rightarrow> int \<Rightarrow> uref \<Rightarrow> Game \<Rightarrow> Game" where
  "Hero_act dt rnd r g =
     (let g1 = OffensiveInfantry_act dt rnd r g;
          g2 = upd_unit r (\<lambda>u. u\<lparr>health := fadd (health u) (fmul 2 (tick_scale dt))\<rparr>) g1
      in if health (heap g2 r) > maxHealth (heap g2 r)
         then upd_unit r (\<lambda>u. u\<lparr>health := maxHealth u\<rparr>) g2
         else g2)"

subsection \<open>Builders\<close>

definition is_being_built :: "Unit \<Rightarrow> bool" where
  "is_being_built u = (buildTime u > 0)"

definition Builder_act :: "real \<Rightarrow> uref \<Rightarrow> Game \<Rightarrow> Game" where
  "Builder_act dt r g =
     (let u = heap g r;
          g1 = (case toBuild u of
                  None \<Rightarrow> g
                | Some t \<Rightarrow>
                    if colliderect (personal_space u) (personal_space (heap g t)) \<and> building u
                    then upd_unit r (\<lambda>u. u\<lparr>destinationX := rect_x (rect u),
                                           destinationY := rect_y (rect u)\<rparr>) g
                    else g);
          g2 = Infantry_act dt r g1;
          u2 = heap g2 r
      in case toBuild u2 of
           None \<Rightarrow> g2
         | Some t \<Rightarrow>
             if at_destination u2 \<and> building u2
             then
               let g3 = upd_unit t (\<lambda>b. b\<lparr>buildTime := fsub (buildTime b) (tick_scale dt)\<rparr>) g2
               in if \<not> is_being_built (heap g3 t)
                  then upd_unit r (\<lambda>u. u\<lparr>building := False\<rparr>) g3
                  else g3
             else g2)"

text \<open>\<^verbatim>\<open>Builder.build_building_at\<close> (the human player's placement) and its sibling
  \<^verbatim>\<open>Builder.ai_build_building_at\<close>.  \<^verbatim>\<open>select()\<close> of a builder sets \<^verbatim>\<open>selected\<close>.\<close>

definition build_building_at :: "uref \<Rightarrow> int \<Rightarrow> int \<Rightarrow> Game \<Rightarrow> bool \<times> Game" where
  "build_building_at b x y g =
     (case toBuild (heap g b) of
        None \<Rightarrow> (False, g)
      | Some t \<Rightarrow>
          let r = \<lparr>rect_x = x, rect_y = y,
                   rect_width = rect_width (rect (heap g t)),
                   rect_height = rect_height (rect (heap g t))\<rparr>
          in if \<not> is_colliding_with_unit g r
             then
               let w = rect_width (rect (heap g t));
                   h = rect_height (rect (heap g t));
                   g1 = set_location t (py_int (real_of_int x - 0.5 * real_of_int w))
                                       (py_int (real_of_int y - 0.5 * real_of_int h)) g;
                   g2 = snd (add_unit (master (heap g1 b)) t g1);
                   g3 = upd_unit b (\<lambda>u. u\<lparr>building := True\<rparr>) g2;
                   g4 = upd_unit b (\<lambda>u. u\<lparr>destinationX := rect_x (rect (heap g3 t)),
                                          destinationY := rect_y (rect (heap g3 t))\<rparr>) g3
               in (True, upd_unit b (\<lambda>u. u\<lparr>selectingToBuild := False, selected := True\<rparr>) g4)
             else (False, g))"

definition ai_build_building_at :: "uref \<Rightarrow> int \<Rightarrow> int \<Rightarrow> Game \<Rightarrow> bool \<times> Game" where
  "ai_build_building_at b x y g =
     (case toBuild (heap g b) of
        None \<Rightarrow> (False, g)
      | Some t \<Rightarrow>
          let r = \<lparr>rect_x = x, rect_y = y,
                   rect_width = rect_width (rect (heap g t)),
                   rect_height = rect_height (rect (heap g t))\<rparr>
          in if \<not> is_colliding_with_unit g r
             then
               let g1 = set_location t x y g;
                   g2 = snd (add_unit (master (heap g1 b)) t g1);
                   g3 = upd_unit b (\<lambda>u. u\<lparr>building := True\<rparr>) g2;
                   g4 = upd_unit b (\<lambda>u. u\<lparr>destinationX := rect_x (rect (heap g3 t)),
                                          destinationY := rect_y (rect (heap g3 t))\<rparr>) g3
               in (True, upd_unit b (\<lambda>u. u\<lparr>selectingToBuild := False, selected := True\<rparr>) g4)
             else (False, g))"

text \<open>The placement step of \<^verbatim>\<open>HumanPlayer.click\<close>: with a builder in build mode the click
  point, in map coordinates, goes to \<^verbatim>\<open>build_building_at\<close>, and build mode ends when
  that call reports success.\<close>

definition click_place :: "int \<Rightarrow> int \<Rightarrow> Game \<Rightarrow> Game" where
  "click_place mx my g =
     (case builder_mode (players g HumanPlayer) of
        None \<Rightarrow> g
      | Some b \<Rightarrow>
          let (ok, g1) = build_building_at b mx my g
          in if ok then upd_player HumanPlayer (\<lambda>p. p\<lparr>builder_mode := None\<rparr>) g1 else g1)"

text \<open>The rectangle the ghost preview of \<^verbatim>\<open>HumanPlayer.buffer_paint\<close> tests: the
  pending building centred on the mouse (\<^verbatim>\<open>//\<close> is floor division).\<close>

definition ghost_rect :: "uref \<Rightarrow> int \<Rightarrow> int \<Rightarrow> Game \<Rightarrow> Rect" where
  "ghost_rect t mx my g =
     \<lparr>rect_x = mx - rect_width (rect (heap g t)) div 2,
      rect_y = my - rect_height (rect (heap g t)) div 2,
      rect_width = rect_width (rect (heap g t)),
      rect_height = rect_height (rect (heap g t))\<rparr>"

subsection \<open>Buildings\<close>

definition init_after_build :: "uref \<Rightarrow> Game \<Rightarrow> Game" where
  "init_after_build r g =
     (let u = heap g r in
      if \<not> didInitializeAfterBuild u
      then upd_player (master u)
             (\<lambda>p. p\<lparr>supportedUnitsValue := supportedUnitsValue p + supportedUnits u\<rparr>)
             (upd_unit r (\<lambda>u. u\<lparr>didInitializeAfterBuild := True\<rparr>) g)
      else g)"

text \<open>The delivery of a finished order \<open>temp_unit\<close> by building \<open>r\<close>: the unit goes
  through \<^verbatim>\<open>add_unit\<close> of the building's player (whose result the source ignores),
  an infantry unit gets the building's bottom-right corner as destination, and the unit
  is moved there.\<close>

definition deliver :: "uref \<Rightarrow> uref \<Rightarrow> Game \<Rightarrow> Game" where
  "deliver r temp_unit g2 =
     (let g3 = snd (add_unit (master (heap g2 r)) temp_unit g2);
          g4 = (if is_Infantry (cls_of temp_unit)
                then
                  let g' = upd_unit temp_unit
                             (\<lambda>u. u\<lparr>destinationX :=
                                rect_x (rect (heap g3 r)) + rect_width (rect (heap g3 r))\<rparr>) g3
                  in upd_unit temp_unit
                       (\<lambda>u. u\<lparr>destinationY :=
                          rect_y (rect (heap g' r)) + rect_height (rect (heap g' r))\<rparr>) g'
                else g3)
      in set_location temp_unit
           (rect_x (rect (heap g4 r)) + rect_width (rect (heap g4 r)))
           (rect_y (rect (heap g4 r)) + rect_height (rect (heap g4 r))) g4)"

text \<open>The production step of \<^verbatim>\<open>Building.act\<close>, entered with the front order \<open>n\<close> of a
  finished building \<open>r\<close>.\<close>

definition produce :: "real \<Rightarrow> uref \<Rightarrow> uref \<Rightarrow> Game \<Rightarrow> Game" where
  "produce dt r n g =
     (let g1 = upd_unit n (\<lambda>u. u\<lparr>buildTime := fsub (buildTime u) (tick_scale dt)\<rparr>) g in
      if buildTime (heap g1 n) \<le> 0
      then
        (case dequeue (queue (heap g1 r)) of
           (None, q) \<Rightarrow> upd_unit r (\<lambda>u. u\<lparr>queue := q\<rparr>) g1
         | (Some temp_unit, q) \<Rightarrow> deliver r temp_unit (upd_unit r (\<lambda>u. u\<lparr>queue := q\<rparr>) g1))
      else g1)"

definition Building_act :: "real \<Rightarrow> uref \<Rightarrow> Game \<Rightarrow> Game" where
  "Building_act dt r g =
     (let g1 = Unit_act r g in
      if \<not> is_being_built (heap g1 r)
      then
        let g2 = init_after_build r g1;
            g3 = upd_player (master (heap g2 r))
                   (\<lambda>p. p\<lparr>resources := fadd (resources p)
                                     (fmul (resourceIncrease (heap g2 r)) (tick_scale dt))\<rparr>) g2
        in case next_order (queue (heap g3 r)) of
             None \<Rightarrow> g3
           | Some n \<Rightarrow> produce dt r n g3
      else g1)"

subsection \<open>One unit's turn and the per-frame pass\<close>

text \<open>Dynamic dispatch of \<^verbatim>\<open>u.act(dt)\<close>, and the loop of \<^verbatim>\<open>Game.update\<close> over a snapshot
  of the map's unit list.  \<open>rnd k\<close> is the random draw available to the \<open>k\<close>-th unit of
  the pass.\<close>

definition act :: "real \<Rightarrow> int \<Rightarrow> uref \<Rightarrow> Game \<Rightarrow> Game" where
  "act dt rnd r g =
     (if is_Hero (cls_of r) then Hero_act dt rnd r g
      else if is_OffensiveInfantry (cls_of r) then OffensiveInfantry_act dt rnd r g
      else if is_Infantry (cls_of r) then Builder_act dt r g
      else Building_act dt r g)"

fun act_all :: "real \<Rightarrow> (nat \<Rightarrow> int) \<Rightarrow> nat \<Rightarrow> uref list \<Rightarrow> Game \<Rightarrow> Game" where
  "act_all dt rnd k [] g = g"
| "act_all dt rnd k (r # rs) g = act_all dt rnd (Suc k) rs (act dt (rnd k) r g)"

definition update_units :: "real \<Rightarrow> (nat \<Rightarrow> int) \<Rightarrow> Game \<Rightarrow> Game" where
  "update_units dt rnd g = act_all dt rnd 0 (map_units (game_map g)) g"

section \<open>Constructors\<close>

text \<open>The \<^verbatim>\<open>__init__\<close> chains of the unit classes.  \<^verbatim>\<open>BU.timeModifier\<close> is the class
  attribute that scales build times (1 unless the \<^verbatim>\<open>fastpace\<close> command was typed).
  Attributes a class does not have (\<^verbatim>\<open>queue\<close> of a swordsman, say) carry an inert
  default and are never read for that class.\<close>

definition Unit_init :: "int \<Rightarrow> pid \<Rightarrow> int \<Rightarrow> int \<Rightarrow> Unit" where
  "Unit_init timeModifier i sd build_time =
     \<lparr>master = i, side = sd,
      rect = \<lparr>rect_x = 0, rect_y = 0, rect_width = 10, rect_height = 10\<rparr>,
      fx = 0, fy = 0, selected = False, health = 1, maxHealth = 1, cost = 0, defense = 0,
      buildTime = real_of_int build_time / real_of_int (max 1 timeModifier),
      maxBuildTime = real_of_int build_time,
      personal_space = \<lparr>rect_x = 0, rect_y = 0, rect_width = 0, rect_height = 0\<rparr>,
      sight = \<lparr>rect_x = 0, rect_y = 0, rect_width = 0, rect_height = 0\<rparr>,
      didInitializeAfterBuild = False,
      obsession = None, unitValue = 0, speed = 0, destinationX = 0, destinationY = 0,
      holdPosition = False, ignoreEnemies = False, unit_power = 0, attackDistance = 0,
      attacking = False, attackMoving = False, toBuild = None, building = False,
      selectingToBuild = False, supportedUnits = 0, resourceIncrease = 0, queue = []\<rparr>"

definition set_size :: "int \<Rightarrow> int \<Rightarrow> Unit \<Rightarrow> Unit" where
  "set_size w h u = u\<lparr>rect := (rect u)\<lparr>rect_width := w, rect_height := h\<rparr>\<rparr>"

definition Infantry_init :: "int \<Rightarrow> pid \<Rightarrow> int \<Rightarrow> int \<Rightarrow> Unit" where
  "Infantry_init timeModifier i sd build_time =
     (set_size 25 25 (Unit_init timeModifier i sd build_time))
       \<lparr>obsession := None, unitValue := 1, speed := 3, destinationX := 100,
        destinationY := 100, holdPosition := False\<rparr>"

definition OffensiveInfantry_init :: "int \<Rightarrow> pid \<Rightarrow> int \<Rightarrow> int \<Rightarrow> Unit" where
  "OffensiveInfantry_init timeModifier i sd build_time =
     (Infantry_init timeModifier i sd build_time)
       \<lparr>ignoreEnemies := False, unit_power := 1, attackDistance := 4, attacking := False,
        attackMoving := False\<rparr>"

definition Building_init :: "int \<Rightarrow> pid \<Rightarrow> int \<Rightarrow> int \<Rightarrow> Unit" where
  "Building_init timeModifier i sd build_time =
     (Unit_init timeModifier i sd build_time)
       \<lparr>supportedUnits := 1, resourceIncrease := fl (1 / 1000), queue := []\<rparr>"

definition ComandCenter_init :: "int \<Rightarrow> pid \<Rightarrow> int \<Rightarrow> Unit" where
  "ComandCenter_init timeModifier i sd =
     (set_size 100 100 (Building_init timeModifier i sd 900))
       \<lparr>health := 10000, maxHealth := 10000, cost := 400, supportedUnits := 20,
        resourceIncrease := fl (8 / 100)\<rparr>"

fun new_unit :: "cls \<Rightarrow> int \<Rightarrow> pid \<Rightarrow> int \<Rightarrow> Unit" where
  "new_unit Builder tm i sd =
     (Infantry_init tm i sd 100)
       \<lparr>health := 50, maxHealth := 50, cost := 30, toBuild := None, building := False,
        selectingToBuild := False\<rparr>"
| "new_unit Spearman tm i sd =
     (set_size 30 30 (OffensiveInfantry_init tm i sd 200))
       \<lparr>health := 70, maxHealth := 70, cost := 60, attackDistance := 5\<rparr>"
| "new_unit Swordsman tm i sd =
     (set_size 30 30 (OffensiveInfantry_init tm i sd 250))
       \<lparr>health := 100, maxHealth := 100, cost := 90, unit_power := 2, attackDistance := 4\<rparr>"
| "new_unit Horseman tm i sd =
     (set_size 50 50 (OffensiveInfantry_init tm i sd 350))
       \<lparr>health := 150, maxHealth := 150, cost := 150, unitValue := 2,
        unit_power := 1 * 2 + 2, speed := 7\<rparr>"
| "new_unit BrianBoru tm i sd =
     (set_size 40 40 (OffensiveInfantry_init tm i sd 900))
       \<lparr>health := 1000, maxHealth := 1000, cost := 400, attackDistance := 10,
        unit_power := 10, speed := 6\<rparr>"
| "new_unit Sigurd tm i sd =
     (set_size 40 40 (OffensiveInfantry_init tm i sd 900))
       \<lparr>health := 1000, maxHealth := 1000, cost := 400, attackDistance := 10,
        unit_power := 10, speed := 6\<rparr>"
| "new_unit Barracks tm i sd =
     (set_size 90 90 (Building_init tm i sd 600))
       \<lparr>health := 2000, maxHealth := 2000, cost := 150\<rparr>"
| "new_unit Stables tm i sd =
     (set_size 120 80 (Building_init tm i sd 2500))
       \<lparr>cost := 200, health := 2500, maxHealth := 2500\<rparr>"
| "new_unit ComandCenter tm i sd = ComandCenter_init tm i sd"
| "new_unit Tara tm i sd = ComandCenter_init tm i sd"
| "new_unit SupplyDepot tm i sd =
     (set_size 50 50 (Building_init tm i sd 300))
       \<lparr>health := 1000, maxHealth := 1000, cost := 40, supportedUnits := 10,
        resourceIncrease := fl (4 / 100)\<rparr>"

text \<open>\<^verbatim>\<open>Player.__init__\<close> before the subclass hook \<^verbatim>\<open>init()\<close> runs, and \<^verbatim>\<open>Map.__init__\<close>.\<close>

definition Player_init :: Player where
  "Player_init =
     \<lparr>units = [], builder_mode = None, supplyDepotCount = 0, comandCenterCount = 0,
      hasHero = False, supplyDepotLimit = 30, comandCeneterLimit = 3, attackUpgrade = False,
      resources = 800, totalUnitsValue = 0, supportedUnitsValue = 0\<rparr>"

definition Map_init :: GMap where
  "Map_init = \<lparr>map_width = 3000, map_height = 3000, map_units = []\<rparr>"

text \<open>A game whose objects are all freshly constructed: the object behind \<open>Ref c n\<close> is a
  new instance of class \<open>c\<close> owned by the human player.  Concrete inputs below are built
  from it by assigning attributes.\<close>

definition fresh_game :: Game where
  "fresh_game =
     \<lparr>heap = (\<lambda>r. new_unit (cls_of r) 1 HumanPlayer 0),
      game_map = Map_init,
      players = (\<lambda>i. Player_init)\<rparr>"

section \<open>Game start and the roster of each player\<close>

text \<open>\<^verbatim>\<open>Game.__init__\<close>: the computer player is created first and places a command centre
  at (2500, 2500), then the human player places Tara at (770, 100).  The argument is the
  store of all objects constructed later.\<close>

definition Game_init :: "(uref \<Rightarrow> Unit) \<Rightarrow> Game" where
  "Game_init h =
     (let g0 = \<lparr>heap = h, game_map = Map_init, players = (\<lambda>i. Player_init)\<rparr>;
          cc = Ref ComandCenter 0;
          g1 = upd_unit cc (\<lambda>_. (new_unit ComandCenter 1 ComputerPlayer 1)\<lparr>buildTime := 0\<rparr>) g0;
          g2 = snd (add_unit ComputerPlayer cc (set_location cc 2500 2500 g1));
          tara = Ref Tara 0;
          g3 = upd_unit tara (\<lambda>_. (new_unit Tara 1 HumanPlayer 0)\<lparr>buildTime := 0\<rparr>) g2
      in snd (add_unit HumanPlayer tara (set_location tara 770 100 g3)))"

text \<open>\<^verbatim>\<open>DropSpearmanAction.tech_act\<close> registers the spearman it constructs by appending
  it to the owner's list and to the map directly, without \<^verbatim>\<open>add_unit\<close>.\<close>

definition drop_spearman :: "pid \<Rightarrow> uref \<Rightarrow> Game \<Rightarrow> Game" where
  "drop_spearman i sm g =
     (upd_player i (\<lambda>p. p\<lparr>units := units p @ [sm]\<rparr>) g)
       \<lparr>game_map := Map_add_unit sm (game_map g)\<rparr>"

text \<open>Everything else the program does (movement, combat, construction of new objects,
  resource accrual, the AI poll, input handling) leaves the unit lists, the hero flags
  and the controller of every listed unit as they are.\<close>

definition same_roster :: "Game \<Rightarrow> Game \<Rightarrow> bool" where
  "same_roster g g' =
     (map_units (game_map g') = map_units (game_map g)
      \<and> (\<forall>i. units (players g' i) = units (players g i)
             \<and> hasHero (players g' i) = hasHero (players g i)
             \<and> (\<forall>r \<in> set (units (players g i)). master (heap g' r) = master (heap g r))))"

text \<open>The states the game can reach.  A unit is added to the player of its own
  controller (every call site passes \<^verbatim>\<open>self.master.master\<close>), and a unit dies inside its own
  \<^verbatim>\<open>act\<close>, which \<^verbatim>\<open>Game.update\<close> calls for the units on the map.\<close>

inductive reachable :: "Game \<Rightarrow> bool" where
  init: "reachable (Game_init h)"
| add: "reachable g \<Longrightarrow> master (heap g r) = i \<Longrightarrow> reachable (snd (add_unit i r g))"
| death: "reachable g \<Longrightarrow> r \<in> set (map_units (game_map g)) \<Longrightarrow> reachable (die r g)"
| drop: "reachable g \<Longrightarrow> master (heap g (Ref Spearman n)) = i
          \<Longrightarrow> reachable (drop_spearman i (Ref Spearman n) g)"
| other: "reachable g \<Longrightarrow> same_roster g g' \<Longrightarrow> reachable g'"

definition hero_count :: "Game \<Rightarrow> pid \<Rightarrow> nat" where
  "hero_count g i = length (filter (\<lambda>r. is_Hero (cls_of r)) (units (players g i)))"

definition roster_inv :: "Game \<Rightarrow> bool" where
  "roster_inv g =
     ((\<forall>i. hero_count g i \<le> 1
          \<and> (hero_count g i = 1 \<longrightarrow> hasHero (players g i))
          \<and> (\<forall>r \<in> set (units (players g i)). master (heap g r) = i))
      \<and> (\<forall>r. count_list (map_units (game_map g)) r
             = count_list (units (players g HumanPlayer)) r
               + count_list (units (players g ComputerPlayer)) r))"

section \<open>Concrete games\<close>

definition game_with_resources :: "real \<Rightarrow> Game" where
  "game_with_resources x = fresh_game\<lparr>players := (\<lambda>i. Player_init\<lparr>resources := x\<rparr>)\<rparr>"

definition funded_game :: Game where
  "funded_game =
     upd_player HumanPlayer (\<lambda>p. p\<lparr>resources := 1000, supportedUnitsValue := 20\<rparr>)
       (Game_init (heap fresh_game))"

definition hero_game :: Game where
  "hero_game = snd (add_unit HumanPlayer (Ref BrianBoru 0) funded_game)"


definition placement_game :: Game where
  "placement_game =
     (let g1 = upd_unit (Ref Builder 0)
                 (\<lambda>u. u\<lparr>toBuild := Some (Ref Barracks 0), selectingToBuild := True\<rparr>) fresh_game;
          g2 = set_location (Ref Spearman 0) 150 150 g1;
          g3 = upd_player HumanPlayer
                 (\<lambda>p. p\<lparr>units := [Ref Builder 0, Ref Spearman 0],
                         builder_mode := Some (Ref Builder 0)\<rparr>) g2
      in g3\<lparr>game_map := (game_map g3)\<lparr>map_units := [Ref Builder 0, Ref Spearman 0]\<rparr>\<rparr>)"

section \<open>Movement runs\<close>

text \<open>A unit fits the map when it is no larger than the map (the map is 3000 by 3000, the
  largest unit 120 by 80); it is in bounds when its integer position \<^verbatim>\<open>rect.x, rect.y\<close> and
  its float position \<^verbatim>\<open>fx, fy\<close> lie between 0 and map size minus unit size.\<close>

definition fits :: "Game \<Rightarrow> uref \<Rightarrow> bool" where
  "fits g r =
     (rect_width (rect (heap g r)) \<le> map_width (game_map g)
      \<and> rect_height (rect (heap g r)) \<le> map_height (game_map g))"

definition in_bounds :: "Game \<Rightarrow> uref \<Rightarrow> bool" where
  "in_bounds g r =
     (let u = heap g r; m = game_map g in
      0 \<le> rect_x (rect u) \<and> rect_x (rect u) \<le> map_width m - rect_width (rect u)
      \<and> 0 \<le> rect_y (rect u) \<and> rect_y (rect u) \<le> map_height m - rect_height (rect u)
      \<and> 0 \<le> fx u \<and> fx u \<le> real_of_int (map_width m - rect_width (rect u))
      \<and> 0 \<le> fy u \<and> fy u \<le> real_of_int (map_height m - rect_height (rect u)))"

text \<open>What the rest of the game may do between two turns of unit \<open>r\<close>: anything that
  keeps \<open>r\<close>'s position and size and the map's size and does not set \<open>r\<close>'s
  \<^verbatim>\<open>holdPosition\<close> (only \<open>r\<close>'s own \<^verbatim>\<open>act\<close> sets it; clicks clear it).  Destinations, targets,
  health and every other object may change freely.\<close>

definition same_place :: "uref \<Rightarrow> Game \<Rightarrow> Game \<Rightarrow> bool" where
  "same_place r g g' =
     (rect (heap g' r) = rect (heap g r) \<and> fx (heap g' r) = fx (heap g r)
      \<and> fy (heap g' r) = fy (heap g r)
      \<and> map_width (game_map g') = map_width (game_map g)
      \<and> map_height (game_map g') = map_height (game_map g))"

definition undisturbed :: "uref \<Rightarrow> Game \<Rightarrow> Game \<Rightarrow> bool" where
  "undisturbed r g g' =
     (same_place r g g' \<and> (holdPosition (heap g' r) \<longrightarrow> holdPosition (heap g r)))"

text \<open>\<open>run r g n g'\<close>: from \<open>g\<close> the game reaches \<open>g'\<close> by \<open>n\<close> turns of unit \<open>r\<close> (any
  \<open>dt\<close>, any random draw), interleaved with such steps of the environment.\<close>

inductive run :: "uref \<Rightarrow> Game \<Rightarrow> nat \<Rightarrow> Game \<Rightarrow> bool" where
  start: "run r g 0 g"
| env: "run r g n g1 \<Longrightarrow> undisturbed r g1 g2 \<Longrightarrow> run r g n g2"
| tick: "run r g n g1 \<Longrightarrow> run r g (Suc n) (act dt rnd r g1)"

text \<open>A builder placed far outside the map.\<close>

definition stray_game :: Game where
  "stray_game = set_location (Ref Builder 0) 5000 5000 fresh_game"

section \<open>Production\<close>

text \<open>The state in which \<^verbatim>\<open>Building.act\<close> calls \<^verbatim>\<open>add_unit\<close> for a finished order \<open>n\<close>:
  \<^verbatim>\<open>Unit.act\<close>, \<^verbatim>\<open>init_after_build\<close> and the resource accrual have run, the order's build
  time has been decremented and the order has left the queue.\<close>

definition production_state :: "real \<Rightarrow> uref \<Rightarrow> uref \<Rightarrow> uref list \<Rightarrow> Game \<Rightarrow> Game" where
  "production_state dt b n rest g =
     (let g2 = init_after_build b (Unit_act b g);
          g3 = upd_player (master (heap g2 b))
                 (\<lambda>p. p\<lparr>resources := fadd (resources p)
                                     (fmul (resourceIncrease (heap g2 b)) (tick_scale dt))\<rparr>) g2;
          g4 = upd_unit n (\<lambda>u. u\<lparr>buildTime := fsub (buildTime u) (tick_scale dt)\<rparr>) g3
      in upd_unit b (\<lambda>u. u\<lparr>queue := rest\<rparr>) g4)"

text \<open>A finished barracks at (500, 500) whose front order, a spearman, has 4.5 ticks of
  build time left.  A frame of \<^verbatim>\<open>dt = 0.075\<close> seconds completes it: the float \<^verbatim>\<open>0.075\<close>, which
  is \<open>fl (3 / 40)\<close>, lies below 3/40, and its product with 60 rounds to 4.5.\<close>

definition production_game :: Game where
  "production_game =
     (let g1 = upd_unit (Ref Barracks 0)
                 (\<lambda>u. u\<lparr>buildTime := 0, queue := [Ref Spearman 0, Ref Swordsman 0]\<rparr>) fresh_game;
          g2 = set_location (Ref Barracks 0) 500 500 g1;
          g3 = upd_unit (Ref Spearman 0) (\<lambda>u. u\<lparr>buildTime := 9 / 2\<rparr>) g2;
          g4 = upd_player HumanPlayer
                 (\<lambda>p. p\<lparr>units := [Ref Barracks 0], supportedUnitsValue := 20\<rparr>) g3
      in g4\<lparr>game_map := (game_map g4)\<lparr>map_units := [Ref Barracks 0]\<rparr>\<rparr>)"

section \<open>Relations between the states before and after an \<^verbatim>\<open>act\<close> call\<close>

text \<open>\<open>tame g g'\<close>: from \<open>g\<close> to \<open>g'\<close> no object changed its controller or its
  \<^verbatim>\<open>maxHealth\<close>, no health went up and no production queue gained an entry.\<close>

definition tame :: "Game \<Rightarrow> Game \<Rightarrow> bool" where
  "tame g g' =
     (\<forall>x. master (heap g' x) = master (heap g x)
          \<and> maxHealth (heap g' x) = maxHealth (heap g x)
          \<and> health (heap g' x) \<le> health (heap g x)
          \<and> set (queue (heap g' x)) \<subseteq> set (queue (heap g x)))"

text \<open>The three unit lists of a game: the map's, the human player's and the computer
  player's.\<close>

definition roster :: "Game \<Rightarrow> uref list \<times> uref list \<times> uref list" where
  "roster g =
     (map_units (game_map g), units (players g HumanPlayer), units (players g ComputerPlayer))"

text \<open>\<open>grows Q g g'\<close>: the unit lists of \<open>g'\<close> are those of \<open>g\<close> with elements of \<open>Q\<close>
  appended.\<close>

definition grows :: "uref set \<Rightarrow> Game \<Rightarrow> Game \<Rightarrow> bool" where
  "grows Q g g' =
     (\<exists>em eh ec.
        roster g' = (map_units (game_map g) @ em, units (players g HumanPlayer) @ eh,
                     units (players g ComputerPlayer) @ ec)
        \<and> set em \<subseteq> Q \<and> set eh \<subseteq> Q \<and> set ec \<subseteq> Q)"

text \<open>How often \<open>x\<close> occurs in the map's list and in the list of player \<open>i\<close>.\<close>

definition listed :: "Game \<Rightarrow> pid \<Rightarrow> uref \<Rightarrow> nat \<times> nat" where
  "listed g i x =
     (count_list (map_units (game_map g)) x, count_list (units (players g i)) x)"

text \<open>The state of a dead unit \<open>x\<close> of player \<open>i\<close> in the middle of the unit pass of
  \<^verbatim>\<open>Game.update\<close>, when the units \<open>rs\<close> of the snapshot have yet to act: \<open>x\<close> is in no
  production queue, it is listed on the map as often as it will still act and in its
  player's list no more often, and it has no health left unless all its \<^verbatim>\<open>act\<close> calls are
  over.\<close>

definition doomed :: "uref \<Rightarrow> pid \<Rightarrow> uref list \<Rightarrow> Game \<Rightarrow> bool" where
  "doomed x i rs g =
     ((\<forall>b. x \<notin> set (queue (heap g b)))
      \<and> master (heap g x) = i
      \<and> fst (listed g i x) = count_list rs x
      \<and> snd (listed g i x) \<le> count_list rs x
      \<and> (count_list rs x = 0 \<or> health (heap g x) \<le> 0)
      \<and> (is_Hero (cls_of x) \<longrightarrow> count_list rs x \<le> 1))"

text \<open>A swordsman and a spearman of the human player on the map; the spearman's health
  is 0.\<close>

definition dead_game :: Game where
  "dead_game =
     (let g1 = upd_unit (Ref Spearman 0) (\<lambda>u. u\<lparr>health := 0\<rparr>) fresh_game;
          g2 = upd_player HumanPlayer
                 (\<lambda>p. p\<lparr>units := [Ref Swordsman 0, Ref Spearman 0]\<rparr>) g1
      in g2\<lparr>game_map := (game_map g2)\<lparr>map_units := [Ref Swordsman 0, Ref Spearman 0]\<rparr>\<rparr>)"

section \<open>Theorems\<close>

subsection \<open>Evaluation and frame lemmas\<close>

lemmas init_defs = Unit_init_def Infantry_init_def OffensiveInfantry_init_def Building_init_def
  ComandCenter_init_def set_size_def Player_init_def Map_init_def


text \<open>Evaluation of the float operations at concrete numbers.\<close>

lemma ulp_unfold:
  "0 < k \<Longrightarrow> ulp k a u =
     (if 2 ^ 53 * u \<le> a then ulp (k - 1) a (2 * u)
      else if a < 2 ^ 52 * u \<and> 1 / 2 ^ 1074 < u then ulp (k - 1) a (u / 2)
      else u)"
  by (cases k) simp_all

lemmas fl_eval = fl_def ulp_unfold round_half_even_def fadd_def fsub_def fmul_def Let_def

lemma pid_all: "(\<forall>i. P i) = (P HumanPlayer \<and> P ComputerPlayer)"
  by (metis pid.exhaust)

lemma Game_init_eval:
  "map_units (game_map (Game_init h)) = [Ref ComandCenter 0, Ref Tara 0]"
  "units (players (Game_init h) HumanPlayer) = [Ref Tara 0]"
  "units (players (Game_init h) ComputerPlayer) = [Ref ComandCenter 0]"
  "master (heap (Game_init h) (Ref Tara 0)) = HumanPlayer"
  "master (heap (Game_init h) (Ref ComandCenter 0)) = ComputerPlayer"
  by (simp_all add: Game_init_def Let_def ComputerPlayer_add_unit_def Player_add_unit_def
      is_colliding_with_unit_def upd_unit_def set_location_def get_unit_to_add_def
      Map_add_unit_def init_defs)

lemma roster_inv_init: "roster_inv (Game_init h)"
  by (simp add: roster_inv_def hero_count_def pid_all Game_init_eval)


lemma die_roster:
  "units (players (die r g) i) = (if i = master (heap g r) then remove1 r (units (players g i)) else units (players g i))"
  "hasHero (players (die r g) i) = (if i = master (heap g r) \<and> is_Hero (cls_of r) then False else hasHero (players g i))"
  "map_units (game_map (die r g)) = remove1 r (map_units (game_map g))"
  "heap (die r g) = heap g"
  by (simp_all add: die_def Infantry_die_def Building_die_def ComandCenter_die_def SupplyDepot_die_def
      Unit_die_def Player_remove_unit_def Map_remove_unit_def upd_player_def Let_def)

lemma Player_add_unit_roster:
  "heap (snd (Player_add_unit i r g)) = heap g"
  "units (players (snd (Player_add_unit i r g)) j) =
     (if fst (Player_add_unit i r g) \<and> j = i then units (players g j) @ [r] else units (players g j))"
  "map_units (game_map (snd (Player_add_unit i r g))) =
     (if fst (Player_add_unit i r g) then map_units (game_map g) @ [r] else map_units (game_map g))"
  by (simp_all add: Player_add_unit_def get_unit_to_add_def Map_add_unit_def Let_def)


lemma Player_add_unit_hasHero:
  "hasHero (players (snd (Player_add_unit i r g)) j) =
     (if fst (Player_add_unit i r g) \<and> j = i \<and> is_Hero (cls_of r) then True
      else hasHero (players g j))"
  by (simp add: Player_add_unit_def get_unit_to_add_def Map_add_unit_def Let_def)

lemma Player_add_unit_hero_accepted:
  "fst (Player_add_unit i r g) \<Longrightarrow> is_Hero (cls_of r) \<Longrightarrow> \<not> hasHero (players g i)"
  by (simp add: Player_add_unit_def Let_def split: if_splits)

lemma add_unit_cases:
  "add_unit i r g = Player_add_unit i r g \<or> add_unit i r g = (False, g)"
  by (cases i) (simp_all add: ComputerPlayer_add_unit_def)

lemma roster_inv_Player_add_unit:
  assumes inv: "roster_inv g" and m: "master (heap g r) = i"
  shows "roster_inv (snd (Player_add_unit i r g))"
proof (cases "fst (Player_add_unit i r g)")
  case False
  then show ?thesis
    using inv
    by (simp add: roster_inv_def hero_count_def Player_add_unit_roster Player_add_unit_hasHero)
next
  case ok: True
  show ?thesis
  proof (cases "is_Hero (cls_of r)")
    case False
    then show ?thesis
      using inv ok m
      by (cases i) (auto simp add: roster_inv_def hero_count_def Player_add_unit_roster
          Player_add_unit_hasHero pid_all)
  next
    case True
    then have "\<not> hasHero (players g i)"
      using ok Player_add_unit_hero_accepted by blast
    then have "hero_count g i = 0"
    proof -
      have "hero_count g i \<le> 1" "hero_count g i \<noteq> 1"
        using inv \<open>\<not> hasHero (players g i)\<close> by (auto simp add: roster_inv_def)
      then show ?thesis by arith
    qed
    then show ?thesis
      using inv ok m True
      by (cases i) (auto simp add: roster_inv_def hero_count_def Player_add_unit_roster
          Player_add_unit_hasHero pid_all)
  qed
qed

lemma roster_inv_add_unit:
  "roster_inv g \<Longrightarrow> master (heap g r) = i \<Longrightarrow> roster_inv (snd (add_unit i r g))"
  using add_unit_cases [of i r g] roster_inv_Player_add_unit [of g r i] by auto


lemma count_list_remove1:
  "count_list (remove1 r xs) q = (if q = r then count_list xs r - 1 else count_list xs q)"
  by (induction xs) auto

lemma length_filter_remove1:
  "length (filter P (remove1 r xs)) =
     (if r \<in> set xs \<and> P r then length (filter P xs) - 1 else length (filter P xs))"
proof (induction xs)
  case Nil
  then show ?case by simp
next
  case (Cons x xs)
  have "P r \<Longrightarrow> r \<in> set xs \<Longrightarrow> 0 < length (filter P xs)"
    by (auto simp add: filter_empty_conv)
  with Cons show ?case by auto
qed

lemma listed_owner:
  assumes inv: "roster_inv g" and r: "r \<in> set (map_units (game_map g))"
  shows "r \<in> set (units (players g (master (heap g r))))"
proof -
  have "0 < count_list (map_units (game_map g)) r"
    using r count_list_0_iff [of "map_units (game_map g)" r] by simp
  then have "0 < count_list (units (players g HumanPlayer)) r
             \<or> 0 < count_list (units (players g ComputerPlayer)) r"
    using inv by (simp add: roster_inv_def)
  then obtain j where j: "r \<in> set (units (players g j))"
    using count_list_0_iff [of "units (players g HumanPlayer)" r]
      count_list_0_iff [of "units (players g ComputerPlayer)" r] by auto
  then have "master (heap g r) = j"
    using inv by (simp add: roster_inv_def)
  with j show ?thesis by simp
qed

lemma roster_inv_die:
  assumes inv: "roster_inv g" and r: "r \<in> set (map_units (game_map g))"
  shows "roster_inv (die r g)"
proof -
  have own: "r \<in> set (units (players g (master (heap g r))))"
    using inv r by (rule listed_owner)
  have c: "0 < count_list (units (players g (master (heap g r)))) r"
    using own count_list_0_iff [of "units (players g (master (heap g r)))" r] by simp
  have heroes: "\<And>i. hero_count (die r g) i \<le> hero_count g i"
    by (simp add: hero_count_def die_roster length_filter_remove1)
  have gone: "is_Hero (cls_of r) \<Longrightarrow> hero_count (die r g) (master (heap g r)) = 0"
  proof -
    assume h: "is_Hero (cls_of r)"
    have "hero_count g (master (heap g r)) \<le> 1"
      using inv by (simp add: roster_inv_def)
    then show ?thesis
      using own h by (simp add: hero_count_def die_roster length_filter_remove1)
  qed
  have same: "\<And>i. \<not> (i = master (heap g r) \<and> is_Hero (cls_of r))
                \<Longrightarrow> hero_count (die r g) i = hero_count g i"
    by (auto simp add: hero_count_def die_roster length_filter_remove1)
  have i1: "hero_count (die r g) i \<le> 1" for i
  proof -
    have "hero_count g i \<le> 1" using inv by (simp add: roster_inv_def)
    with heroes [of i] show ?thesis by arith
  qed
  have i2: "hasHero (players (die r g) i)" if one: "hero_count (die r g) i = 1" for i
  proof (cases "i = master (heap g r) \<and> is_Hero (cls_of r)")
    case True
    then show ?thesis using gone one by simp
  next
    case False
    then have "hero_count g i = 1" using same [of i] one by simp
    then have "hasHero (players g i)" using inv by (simp add: roster_inv_def)
    then show ?thesis using False by (simp add: die_roster)
  qed
  have i3: "master (heap (die r g) q) = i" if q: "q \<in> set (units (players (die r g) i))" for i q
  proof -
    have "q \<in> set (units (players g i))"
      using q set_remove1_subset [of r "units (players g i)"]
      by (auto simp add: die_roster split: if_splits)
    then show ?thesis using inv by (simp add: roster_inv_def die_roster)
  qed
  have i4: "\<And>q. count_list (map_units (game_map (die r g))) q
               = count_list (units (players (die r g) HumanPlayer)) q
                 + count_list (units (players (die r g) ComputerPlayer)) q"
  proof -
    fix q
    have m: "count_list (map_units (game_map g)) q
             = count_list (units (players g HumanPlayer)) q
               + count_list (units (players g ComputerPlayer)) q"
      using inv by (simp add: roster_inv_def)
    show "count_list (map_units (game_map (die r g))) q
               = count_list (units (players (die r g) HumanPlayer)) q
                 + count_list (units (players (die r g) ComputerPlayer)) q"
      using m c by (cases "master (heap g r)") (auto simp add: die_roster count_list_remove1)
  qed
  show ?thesis
    unfolding roster_inv_def using i1 i2 i3 i4 by simp
qed

lemma roster_inv_drop:
  "roster_inv g \<Longrightarrow> master (heap g (Ref Spearman n)) = i
    \<Longrightarrow> roster_inv (drop_spearman i (Ref Spearman n) g)"
  by (cases i) (auto simp add: roster_inv_def hero_count_def drop_spearman_def upd_player_def
      Map_add_unit_def pid_all)

lemma roster_inv_other: "roster_inv g \<Longrightarrow> same_roster g g' \<Longrightarrow> roster_inv g'"
  by (simp add: roster_inv_def same_roster_def hero_count_def)

lemma reachable_roster_inv: "reachable g \<Longrightarrow> roster_inv g"
  by (induction rule: reachable.induct)
     (simp_all add: roster_inv_init roster_inv_add_unit roster_inv_die roster_inv_drop
       roster_inv_other)

lemma funded_game_eval:
  "units (players funded_game HumanPlayer) = [Ref Tara 0]"
  "hasHero (players funded_game HumanPlayer) = False"
  "resources (players funded_game HumanPlayer) = 1000"
  "supportedUnitsValue (players funded_game HumanPlayer) = 20"
  "totalUnitsValue (players funded_game HumanPlayer) = 0"
  "heap funded_game (Ref BrianBoru 0) = new_unit BrianBoru 1 HumanPlayer 0"
  by (simp_all add: funded_game_def fresh_game_def upd_player_def Game_init_def Let_def
      ComputerPlayer_add_unit_def Player_add_unit_def
      is_colliding_with_unit_def upd_unit_def set_location_def get_unit_to_add_def
      Map_add_unit_def init_defs)

lemma hero_game_eval:
  "units (players hero_game HumanPlayer) = [Ref Tara 0, Ref BrianBoru 0]"
  "hasHero (players hero_game HumanPlayer) = True"
  by (simp_all add: hero_game_def Player_add_unit_def Let_def funded_game_eval
      get_unit_to_add_def Map_add_unit_def init_defs)

lemma reachable_hero_game: "reachable hero_game"
proof -
  have "reachable (Game_init (heap fresh_game))" by (rule reachable.init)
  moreover have "same_roster (Game_init (heap fresh_game)) funded_game"
    by (simp add: same_roster_def funded_game_def upd_player_def)
  ultimately have "reachable funded_game" by (rule reachable.other)
  moreover have "master (heap funded_game (Ref BrianBoru 0)) = HumanPlayer"
    by (simp add: funded_game_eval init_defs)
  ultimately show ?thesis unfolding hero_game_def by (rule reachable.add)
qed

subsection \<open>Claims about \<^verbatim>\<open>Player.add_unit\<close>\<close>

text \<open>
  Claim C10.  A unit whose cost exactly equals the player's current resource balance is
  rejected by \<^verbatim>\<open>add_unit\<close>: the affordability test is the strict \<^verbatim>\<open>u.cost < self.resources\<close>.
  The statement covers both player classes through the dispatching \<open>add_unit\<close>.
\<close>

theorem add_unit_exact_cost_rejected:
  "real_of_int (cost (heap g r)) = resources (players g i) \<Longrightarrow> fst (add_unit i r g) = False"
  by (cases i)
     (simp_all add: ComputerPlayer_add_unit_def Player_add_unit_def Let_def)

theorem add_unit_exact_cost_rejected_witness:
  "real_of_int (cost (heap (game_with_resources 30) (Ref Builder 1)))
      = resources (players (game_with_resources 30) HumanPlayer)
   \<and> fst (add_unit HumanPlayer (Ref Builder 1) (game_with_resources 30)) = False"
  using add_unit_exact_cost_rejected [of "game_with_resources 30" "Ref Builder 1" HumanPlayer]
  by (simp add: game_with_resources_def fresh_game_def init_defs)

text \<open>
  Claim C1.  The claim says that a rejected \<^verbatim>\<open>add_unit\<close> leaves the whole player state
  untouched.  The source increments \<^verbatim>\<open>comandCenterCount\<close> (and \<^verbatim>\<open>supplyDepotCount\<close>) before
  it tests cost and supply, so a command centre the player cannot pay for is rejected
  and still counted: with 300 resources and no command centre, the call returns false
  and the counter goes from 0 to 1.
\<close>

theorem add_unit_rejection_changes_counter:
  "fst (add_unit HumanPlayer (Ref ComandCenter 1) (game_with_resources 300)) = False
   \<and> comandCenterCount (players (game_with_resources 300) HumanPlayer) = 0
   \<and> comandCenterCount
        (players (snd (add_unit HumanPlayer (Ref ComandCenter 1) (game_with_resources 300)))
           HumanPlayer) = 1"
  by (simp add: game_with_resources_def fresh_game_def Player_add_unit_def init_defs Let_def)

text \<open>
  Claim C8.  In every reachable state a player owns at most one hero; and when a player
  owns a hero, \<^verbatim>\<open>add_unit\<close> of any hero returns false and leaves the whole game state (so
  the player's resources and unit list) unchanged.
\<close>

theorem one_hero_per_player:
  assumes "reachable g"
  shows "hero_count g i \<le> 1
         \<and> (hero_count g i = 1 \<and> is_Hero (cls_of h) \<longrightarrow> add_unit i h g = (False, g))"
proof -
  have inv: "roster_inv g" using assms by (rule reachable_roster_inv)
  then have "hero_count g i = 1 \<Longrightarrow> hasHero (players g i)"
    by (simp add: roster_inv_def)
  then have "hero_count g i = 1 \<Longrightarrow> is_Hero (cls_of h) \<Longrightarrow> add_unit i h g = (False, g)"
    by (cases i) (simp_all add: ComputerPlayer_add_unit_def Player_add_unit_def Let_def)
  with inv show ?thesis by (simp add: roster_inv_def)
qed

theorem one_hero_per_player_witness:
  "reachable hero_game \<and> hero_count hero_game HumanPlayer = 1
   \<and> is_Hero (cls_of (Ref Sigurd 0))
   \<and> add_unit HumanPlayer (Ref Sigurd 0) hero_game = (False, hero_game)"
  using one_hero_per_player [OF reachable_hero_game, of HumanPlayer "Ref Sigurd 0"]
    reachable_hero_game
  by (simp add: hero_count_def hero_game_eval)

subsection \<open>Claims about combat\<close>







subsection \<open>Claims about the production queue\<close>

lemma queue_step_bounded: "length q \<le> 5 \<Longrightarrow> length (queue_step q x) \<le> 5"
  by (cases x) (auto simp add: enqueue_def dequeue_def DequeueAction_tech_act_def split: list.splits)

lemma queue_run_bounded: "length q \<le> 5 \<Longrightarrow> length (foldl queue_step q ops) \<le> 5"
  by (induction ops arbitrary: q) (simp_all add: queue_step_bounded)

text \<open>
  Claim C4.  \<^verbatim>\<open>enqueue\<close> on a queue that holds 5 (or more) orders returns false and
  leaves the queue unchanged; on a queue with fewer than 5 it appends the order at the
  back and returns true.  Hence no sequence of queue operations (\<^verbatim>\<open>enqueue\<close>,
  \<^verbatim>\<open>dequeue\<close>, the pop of \<^verbatim>\<open>DequeueAction\<close>) takes a queue of at most 5 orders, in
  particular the empty queue of the constructor, beyond 5.
\<close>

theorem enqueue_bounded:
  "(length q \<ge> 5 \<longrightarrow> enqueue q obj = (False, q))
   \<and> (length q < 5 \<longrightarrow> enqueue q obj = (True, q @ [obj]))
   \<and> (length q \<le> 5 \<longrightarrow> length (foldl queue_step q ops) \<le> 5)
   \<and> length (foldl queue_step [] ops) \<le> 5"
  using queue_run_bounded [of q ops] queue_run_bounded [of "[]" ops]
  by (simp add: enqueue_def)

theorem enqueue_bounded_witness:
  "enqueue [1, 2, 3, 4, 5 :: nat] 6 = (False, [1, 2, 3, 4, 5])
   \<and> enqueue [1, 2 :: nat] 3 = (True, [1, 2, 3])
   \<and> length (foldl queue_step [1, 2, 3, 4 :: nat] [Enqueue 5, Enqueue 6, Dequeue, Enqueue 7, Enqueue 8, DequeueAction]) \<le> 5"
  using enqueue_bounded [of "[1, 2, 3, 4, 5 :: nat]" 6 "[]"]
    enqueue_bounded [of "[1, 2 :: nat]" 3 "[]"]
    enqueue_bounded [of "[1, 2, 3, 4 :: nat]" 0 "[Enqueue 5, Enqueue 6, Dequeue, Enqueue 7, Enqueue 8, DequeueAction]"]
  by simp

subsection \<open>Claims about building placement\<close>

lemma py_int_of_int [simp]: "py_int (real_of_int n) = n"
  by (simp add: py_int_def)

lemma py_int_numeral [simp]: "py_int (numeral k) = numeral k" "py_int 0 = 0" "py_int 1 = 1"
  by (simp_all add: py_int_def)

lemma build_building_at_rejected:
  "toBuild (heap g b) = Some t
   \<Longrightarrow> is_colliding_with_unit g
         \<lparr>rect_x = x, rect_y = y, rect_width = rect_width (rect (heap g t)),
          rect_height = rect_height (rect (heap g t))\<rparr>
   \<Longrightarrow> build_building_at b x y g = (False, g)"
  by (simp add: build_building_at_def Let_def)


lemma placement_game_eval:
  "toBuild (heap placement_game (Ref Builder 0)) = Some (Ref Barracks 0)"
  "rect (heap placement_game (Ref Barracks 0)) = \<lparr>rect_x = 0, rect_y = 0, rect_width = 90, rect_height = 90\<rparr>"
  "rect (heap placement_game (Ref Spearman 0)) = \<lparr>rect_x = 150, rect_y = 150, rect_width = 30, rect_height = 30\<rparr>"
  "rect (heap placement_game (Ref Builder 0)) = \<lparr>rect_x = 0, rect_y = 0, rect_width = 25, rect_height = 25\<rparr>"
  "map_units (game_map placement_game) = [Ref Builder 0, Ref Spearman 0]"
  "master (heap placement_game (Ref Builder 0)) = HumanPlayer"
  "cost (heap placement_game (Ref Barracks 0)) = 150"
  "resources (players placement_game HumanPlayer) = 800"
  "units (players placement_game HumanPlayer) = [Ref Builder 0, Ref Spearman 0]"
  by (simp_all add: placement_game_def fresh_game_def upd_unit_def upd_player_def set_location_def
      Let_def init_defs)

lemma placement_not_checked:
  "\<not> is_colliding_with_unit placement_game
       \<lparr>rect_x = 200, rect_y = 200, rect_width = 90, rect_height = 90\<rparr>"
  by (simp add: is_colliding_with_unit_def placement_game_eval colliderect_def)

lemma placement_ghost:
  "ghost_rect (Ref Barracks 0) 200 200 placement_game
     = \<lparr>rect_x = 155, rect_y = 155, rect_width = 90, rect_height = 90\<rparr>"
  "is_colliding_with_unit placement_game (ghost_rect (Ref Barracks 0) 200 200 placement_game)"
  by (simp_all add: ghost_rect_def is_colliding_with_unit_def placement_game_eval colliderect_def)

lemma placement_centred:
  "is_colliding_with_unit placement_game
     \<lparr>rect_x = 155, rect_y = 155, rect_width = 90, rect_height = 90\<rparr>"
  by (simp add: is_colliding_with_unit_def placement_game_eval colliderect_def)

lemma py_155: "py_int (200 - 0.5 * 90) = 155"
  by (simp add: py_int_def)

text \<open>
  Claim C9.  The claim says that a placement whose building rectangle overlaps a unit is
  refused without any change.  \<^verbatim>\<open>build_building_at\<close> tests the rectangle whose top-left
  corner is the click point, but places the building centred on the click point (the
  rectangle the ghost preview tests, and unlike \<^verbatim>\<open>ai_build_building_at\<close>, which places
  what it tested).  With a 30 by 30 spearman at (150, 150) and a click at (200, 200) the
  preview rectangle of the 90 by 90 barracks collides, yet the call returns true and the
  barracks is registered on the map at (155, 155), overlapping the spearman.
\<close>

theorem placement_tests_wrong_rectangle:
  "is_colliding_with_unit placement_game (ghost_rect (Ref Barracks 0) 200 200 placement_game)
   \<and> fst (build_building_at (Ref Builder 0) 200 200 placement_game) = True
   \<and> map_units (game_map (snd (build_building_at (Ref Builder 0) 200 200 placement_game)))
       = [Ref Builder 0, Ref Spearman 0, Ref Barracks 0]
   \<and> rect (heap (snd (build_building_at (Ref Builder 0) 200 200 placement_game)) (Ref Barracks 0))
       = ghost_rect (Ref Barracks 0) 200 200 placement_game
   \<and> colliderect
        (rect (heap (snd (build_building_at (Ref Builder 0) 200 200 placement_game)) (Ref Barracks 0)))
        (rect (heap (snd (build_building_at (Ref Builder 0) 200 200 placement_game)) (Ref Spearman 0)))"
  by (simp add: placement_ghost placement_centred build_building_at_def placement_game_eval placement_not_checked
      py_155 Let_def set_location_def upd_unit_def Player_add_unit_def get_unit_to_add_def
      Map_add_unit_def colliderect_def)

subsection \<open>Claims about movement\<close>

lemma upd_unit_simps [simp]:
  "heap (upd_unit r f g) = (heap g)(r := f (heap g r))"
  "game_map (upd_unit r f g) = game_map g"
  "players (upd_unit r f g) = players g"
  by (simp_all add: upd_unit_def)

lemma upd_player_simps [simp]:
  "heap (upd_player i f g) = heap g"
  "game_map (upd_player i f g) = game_map g"
  "players (upd_player i f g) = (players g)(i := f (players g i))"
  by (simp_all add: upd_player_def)

lemma die_frame [simp]:
  "heap (die r g) = heap g"
  "map_width (game_map (die r g)) = map_width (game_map g)"
  "map_height (game_map (die r g)) = map_height (game_map g)"
  by (simp_all add: die_def Infantry_die_def Building_die_def ComandCenter_die_def
      SupplyDepot_die_def Unit_die_def Player_remove_unit_def Map_remove_unit_def Let_def)

lemma same_place_refl [simp]: "same_place r g g"
  by (simp add: same_place_def)

lemma same_place_trans: "same_place r g g1 \<Longrightarrow> same_place r g1 g2 \<Longrightarrow> same_place r g g2"
  by (simp add: same_place_def)

lemma same_place_Unit_act: "same_place r g (Unit_act q g)"
  by (simp add: same_place_def Unit_act_def Let_def)

lemma hold_Unit_act: "holdPosition (heap (Unit_act q g) r) = holdPosition (heap g r)"
  by (simp add: Unit_act_def Let_def)

lemma same_place_attack: "same_place r g (attack rnd a obss g)"
  by (simp add: same_place_def attack_def Let_def)

lemma clamp_bounds: "lo \<le> hi \<Longrightarrow> lo \<le> clamp v lo hi \<and> clamp v lo hi \<le> hi"
  by (simp add: clamp_def)

lemma py_int_bounds:
  "0 \<le> v \<Longrightarrow> v \<le> real_of_int n \<Longrightarrow> 0 \<le> py_int v \<and> py_int v \<le> n"
  by (simp add: py_int_def floor_le_iff le_floor_iff)

lemma py_int_real_bounds:
  "0 \<le> v \<Longrightarrow> v \<le> real_of_int n
    \<Longrightarrow> 0 \<le> real_of_int (py_int v) \<and> real_of_int (py_int v) \<le> real_of_int n"
  using py_int_bounds [of v n] by simp


lemma in_bounds_set_location:
  assumes "0 \<le> vx" "vx \<le> real_of_int (map_width (game_map g) - rect_width (rect (heap g r)))"
    and "0 \<le> vy" "vy \<le> real_of_int (map_height (game_map g) - rect_height (rect (heap g r)))"
  shows "in_bounds (set_location r (py_int vx) (py_int vy) g) r"
  using py_int_bounds [OF assms(1,2)] py_int_bounds [OF assms(3,4)]
  by (simp add: in_bounds_def set_location_def Let_def)

lemma set_location_frame:
  "rect_width (rect (heap (set_location r x y g) q)) = rect_width (rect (heap g q))"
  "rect_height (rect (heap (set_location r x y g) q)) = rect_height (rect (heap g q))"
  "game_map (set_location r x y g) = game_map g"
  "holdPosition (heap (set_location r x y g) q) = holdPosition (heap g q)"
  by (simp_all add: set_location_def)

lemma Infantry_gnll_bounds:
  assumes "fits g r"
  shows "in_bounds (set_location r (fst (fst (Infantry_get_next_logical_location dt r g)))
                      (snd (fst (Infantry_get_next_logical_location dt r g)))
                      (snd (Infantry_get_next_logical_location dt r g))) r"
proof -
  let ?W = "real_of_int (map_width (game_map g) - rect_width (rect (heap g r)))"
  let ?H = "real_of_int (map_height (game_map g) - rect_height (rect (heap g r)))"
  have W: "0 \<le> ?W" and H: "0 \<le> ?H"
    using assms by (simp_all add: fits_def)
  obtain tx ty where
    e: "Infantry_get_next_logical_location dt r g
         = ((py_int (clamp tx 0 ?W), py_int (clamp ty 0 ?H)),
            upd_unit r (\<lambda>u. u\<lparr>fx := clamp tx 0 ?W, fy := clamp ty 0 ?H\<rparr>) g)"
    by (simp add: Infantry_get_next_logical_location_def Let_def)
  let ?g = "upd_unit r (\<lambda>u. u\<lparr>fx := clamp tx 0 ?W, fy := clamp ty 0 ?H\<rparr>) g"
  have "in_bounds (set_location r (py_int (clamp tx 0 ?W)) (py_int (clamp ty 0 ?H)) ?g) r"
    using clamp_bounds [OF W, of tx] clamp_bounds [OF H, of ty]
    by (intro in_bounds_set_location) simp_all
  then show ?thesis by (simp add: e)
qed


lemma in_bounds_same_place: "same_place r g g' \<Longrightarrow> in_bounds g' r = in_bounds g r"
  by (simp add: same_place_def in_bounds_def Let_def)

lemma fits_same_place: "same_place r g g' \<Longrightarrow> fits g' r = fits g r"
  by (simp add: same_place_def fits_def)

lemma same_place_upd_other:
  "rect (f (heap g q)) = rect (heap g q) \<Longrightarrow> fx (f (heap g q)) = fx (heap g q)
    \<Longrightarrow> fy (f (heap g q)) = fy (heap g q) \<Longrightarrow> same_place r g (upd_unit q f g)"
  by (simp add: same_place_def)

lemma Offensive_gnll_bounds:
  assumes f: "fits g r" and h: "holdPosition (heap g r) \<longrightarrow> in_bounds g r"
  shows "in_bounds (set_location r (fst (fst (OffensiveInfantry_get_next_logical_location dt r g)))
                      (snd (fst (OffensiveInfantry_get_next_logical_location dt r g)))
                      (snd (OffensiveInfantry_get_next_logical_location dt r g))) r"
proof (cases "holdPosition (heap g r)")
  case True
  then have b: "in_bounds g r" using h by simp
  have "in_bounds (set_location r (py_int (fx (heap g r))) (py_int (fy (heap g r))) g) r"
    using b by (intro in_bounds_set_location) (simp_all add: in_bounds_def Let_def)
  then show ?thesis
    using True by (simp add: OffensiveInfantry_get_next_logical_location_def Let_def)
next
  case False
  obtain g1 where e: "OffensiveInfantry_get_next_logical_location dt r g
                      = Infantry_get_next_logical_location dt r g1"
    and p: "same_place r g g1"
    using False
    by (auto simp add: OffensiveInfantry_get_next_logical_location_def Let_def
        same_place_def split: option.splits)
  have "fits g1 r" using f p by (simp add: fits_same_place)
  then show ?thesis unfolding e by (rule Infantry_gnll_bounds)
qed

lemma gnll_bounds:
  assumes "fits g r" and "holdPosition (heap g r) \<longrightarrow> in_bounds g r"
  shows "in_bounds (set_location r (fst (fst (get_next_logical_location dt r g)))
                      (snd (fst (get_next_logical_location dt r g)))
                      (snd (get_next_logical_location dt r g))) r"
  using assms
  by (simp add: get_next_logical_location_def Offensive_gnll_bounds Infantry_gnll_bounds)

lemma Infantry_act_bounds:
  assumes f: "fits g r" and h: "holdPosition (heap g r) \<longrightarrow> in_bounds g r"
  shows "in_bounds (Infantry_act dt r g) r"
proof -
  have p: "same_place r g (Unit_act r g)" by (rule same_place_Unit_act)
  have "fits (Unit_act r g) r" using f p by (simp add: fits_same_place)
  moreover have "holdPosition (heap (Unit_act r g) r) \<longrightarrow> in_bounds (Unit_act r g) r"
    using h p by (simp add: hold_Unit_act in_bounds_same_place)
  ultimately show ?thesis
    using gnll_bounds [of "Unit_act r g" r dt]
    by (simp add: Infantry_act_def Let_def split_beta)
qed

lemma sizes_frame:
  "rect_width (rect (heap (snd (Infantry_get_next_logical_location dt r g)) q)) = rect_width (rect (heap g q))"
  "rect_height (rect (heap (snd (Infantry_get_next_logical_location dt r g)) q)) = rect_height (rect (heap g q))"
  "game_map (snd (Infantry_get_next_logical_location dt r g)) = game_map g"
  by (simp_all add: Infantry_get_next_logical_location_def Let_def)

lemma Offensive_sizes_frame:
  "rect_width (rect (heap (snd (OffensiveInfantry_get_next_logical_location dt r g)) q)) = rect_width (rect (heap g q))"
  "rect_height (rect (heap (snd (OffensiveInfantry_get_next_logical_location dt r g)) q)) = rect_height (rect (heap g q))"
  "game_map (snd (OffensiveInfantry_get_next_logical_location dt r g)) = game_map g"
  by (simp_all add: OffensiveInfantry_get_next_logical_location_def Let_def sizes_frame
      split: option.splits)

lemma Infantry_act_fits: "fits g r \<Longrightarrow> fits (Infantry_act dt r g) r"
  using same_place_Unit_act [of r g r]
  by (simp add: Infantry_act_def Let_def split_beta fits_def set_location_frame
      get_next_logical_location_def sizes_frame Offensive_sizes_frame same_place_def)


lemma OffensiveInfantry_act_shape:
  "\<exists>g2. same_place r g g2 \<and> holdPosition (heap g2 r) = holdPosition (heap g r)
         \<and> same_place r (Infantry_act dt r g2) (OffensiveInfantry_act dt rnd r g)"
proof -
  define g1 where "g1 =
     (if health (heap g r) > 0
      then upd_unit r
             (\<lambda>u. u\<lparr>personal_space :=
                \<lparr>rect_x = rect_x (rect u) - attackDistance u,
                 rect_y = rect_y (rect u) - attackDistance u,
                 rect_width = rect_width (rect u) + attackDistance u * 2,
                 rect_height = rect_height (rect u) + attackDistance u * 2\<rparr>\<rparr>) g
      else g)"
  define g2 where "g2 =
     (if at_destination (heap g1 r)
      then upd_unit r (\<lambda>u. u\<lparr>ignoreEnemies := False, attackMoving := False\<rparr>) g1
      else g1)"
  have a: "same_place r g g2"
    by (simp add: g2_def g1_def same_place_def)
  have b: "holdPosition (heap g2 r) = holdPosition (heap g r)"
    by (simp add: g2_def g1_def)
  have c: "same_place r (Infantry_act dt r g2) (OffensiveInfantry_act dt rnd r g)"
    unfolding OffensiveInfantry_act_def Let_def g2_def [symmetric] g1_def [symmetric]
    by (simp add: same_place_def attack_def Let_def split: option.splits)
  from a b c show ?thesis by blast
qed

lemma OffensiveInfantry_act_bounds:
  assumes f: "fits g r" and h: "holdPosition (heap g r) \<longrightarrow> in_bounds g r"
  shows "in_bounds (OffensiveInfantry_act dt rnd r g) r \<and> fits (OffensiveInfantry_act dt rnd r g) r"
proof -
  obtain g2 where a: "same_place r g g2"
    and b: "holdPosition (heap g2 r) = holdPosition (heap g r)"
    and c: "same_place r (Infantry_act dt r g2) (OffensiveInfantry_act dt rnd r g)"
    using OffensiveInfantry_act_shape by blast
  have f2: "fits g2 r" using f a by (simp add: fits_same_place)
  have h2: "holdPosition (heap g2 r) \<longrightarrow> in_bounds g2 r"
    using h a b by (simp add: in_bounds_same_place)
  have "in_bounds (Infantry_act dt r g2) r" using f2 h2 by (rule Infantry_act_bounds)
  moreover have "fits (Infantry_act dt r g2) r" using f2 by (rule Infantry_act_fits)
  ultimately show ?thesis using c by (simp add: in_bounds_same_place fits_same_place)
qed

lemma Hero_act_same_place: "same_place r (OffensiveInfantry_act dt rnd r g) (Hero_act dt rnd r g)"
  by (simp add: Hero_act_def Let_def same_place_def)

lemma Builder_act_shape:
  "\<exists>g1. same_place r g g1 \<and> holdPosition (heap g1 r) = holdPosition (heap g r)
         \<and> same_place r (Infantry_act dt r g1) (Builder_act dt r g)"
proof -
  define g1 where "g1 =
     (case toBuild (heap g r) of
        None \<Rightarrow> g
      | Some t \<Rightarrow>
          if colliderect (personal_space (heap g r)) (personal_space (heap g t)) \<and> building (heap g r)
          then upd_unit r (\<lambda>u. u\<lparr>destinationX := rect_x (rect u),
                                 destinationY := rect_y (rect u)\<rparr>) g
          else g)"
  have a: "same_place r g g1"
    by (simp add: g1_def same_place_def split: option.splits)
  have b: "holdPosition (heap g1 r) = holdPosition (heap g r)"
    by (simp add: g1_def split: option.splits)
  have c: "same_place r (Infantry_act dt r g1) (Builder_act dt r g)"
    unfolding Builder_act_def Let_def g1_def [symmetric]
    by (simp add: same_place_def Let_def split: option.splits)
  from a b c show ?thesis by blast
qed

lemma act_bounds:
  assumes i: "is_Infantry (cls_of r)" and f: "fits g r"
    and h: "holdPosition (heap g r) \<longrightarrow> in_bounds g r"
  shows "in_bounds (act dt rnd r g) r \<and> fits (act dt rnd r g) r"
proof (cases "is_OffensiveInfantry (cls_of r)")
  case True
  note o = OffensiveInfantry_act_bounds [OF f h, of dt rnd]
  show ?thesis
  proof (cases "is_Hero (cls_of r)")
    case True
    then show ?thesis
      using o Hero_act_same_place [of r dt rnd g]
      by (simp add: act_def in_bounds_same_place fits_same_place)
  next
    case False
    then show ?thesis using o \<open>is_OffensiveInfantry (cls_of r)\<close> by (simp add: act_def)
  qed
next
  case False
  then have nh: "\<not> is_Hero (cls_of r)" by (cases "cls_of r") simp_all
  obtain g1 where a: "same_place r g g1"
    and b: "holdPosition (heap g1 r) = holdPosition (heap g r)"
    and c: "same_place r (Infantry_act dt r g1) (Builder_act dt r g)"
    using Builder_act_shape by blast
  have f1: "fits g1 r" using f a by (simp add: fits_same_place)
  have h1: "holdPosition (heap g1 r) \<longrightarrow> in_bounds g1 r"
    using h a b by (simp add: in_bounds_same_place)
  have "in_bounds (Infantry_act dt r g1) r" using f1 h1 by (rule Infantry_act_bounds)
  moreover have "fits (Infantry_act dt r g1) r" using f1 by (rule Infantry_act_fits)
  ultimately show ?thesis
    using c False nh i by (simp add: act_def in_bounds_same_place fits_same_place)
qed

lemma run_invariant:
  assumes "run r g n g'" and "is_Infantry (cls_of r)" and "fits g r"
    and "\<not> holdPosition (heap g r)"
  shows "fits g' r \<and> (if n = 0 then \<not> holdPosition (heap g' r) else in_bounds g' r)"
  using assms
proof (induction rule: run.induct)
  case (start r g)
  then show ?case by simp
next
  case (env r g n g1 g2)
  then show ?case
    by (auto simp add: undisturbed_def in_bounds_same_place fits_same_place)
next
  case (tick r g n g1 dt rnd)
  then have "fits g1 r" and "holdPosition (heap g1 r) \<longrightarrow> in_bounds g1 r"
    by (auto split: if_splits)
  then show ?case
    using act_bounds [of r g1 dt rnd] tick.prems by simp
qed

lemma stray_game_eval:
  "rect (heap stray_game (Ref Builder 0))
     = \<lparr>rect_x = 5000, rect_y = 5000, rect_width = 25, rect_height = 25\<rparr>"
  "map_width (game_map stray_game) = 3000"
  "map_height (game_map stray_game) = 3000"
  "holdPosition (heap stray_game (Ref Builder 0)) = False"
  by (simp_all add: stray_game_def set_location_def fresh_game_def init_defs)

text \<open>
  Claim C6.  After any positive number of movement ticks of a mobile unit (any \<open>dt\<close>, any
  destinations, any activity of the rest of the game in between) the unit's position
  satisfies \<open>0 \<le> x \<le> map.width - u.width\<close> and \<open>0 \<le> y \<le> map.height - u.height\<close>, for
  the integer position of its rectangle and for its float position.  The unit starts, as
  its constructor leaves it, not holding position, anywhere on or off the map.
\<close>

theorem position_stays_in_bounds:
  assumes "run r g n g'" and "0 < n" and "is_Infantry (cls_of r)"
    and "rect_width (rect (heap g r)) \<le> map_width (game_map g)"
    and "rect_height (rect (heap g r)) \<le> map_height (game_map g)"
    and "\<not> holdPosition (heap g r)"
  shows "0 \<le> rect_x (rect (heap g' r))
         \<and> rect_x (rect (heap g' r)) \<le> map_width (game_map g') - rect_width (rect (heap g' r))
         \<and> 0 \<le> rect_y (rect (heap g' r))
         \<and> rect_y (rect (heap g' r)) \<le> map_height (game_map g') - rect_height (rect (heap g' r))
         \<and> 0 \<le> fx (heap g' r)
         \<and> fx (heap g' r) \<le> real_of_int (map_width (game_map g') - rect_width (rect (heap g' r)))
         \<and> 0 \<le> fy (heap g' r)
         \<and> fy (heap g' r) \<le> real_of_int (map_height (game_map g') - rect_height (rect (heap g' r)))"
proof -
  have "fits g r" using assms(4,5) by (simp add: fits_def)
  then have "in_bounds g' r"
    using run_invariant [OF assms(1) assms(3) _ assms(6)] assms(2) by simp
  then show ?thesis by (simp add: in_bounds_def Let_def)
qed

theorem position_stays_in_bounds_witness:
  "run (Ref Builder 0) stray_game 1 (act (1 / 60) 0 (Ref Builder 0) stray_game)
   \<and> is_Infantry (cls_of (Ref Builder 0))
   \<and> rect_x (rect (heap stray_game (Ref Builder 0))) = 5000
   \<and> rect_width (rect (heap stray_game (Ref Builder 0))) \<le> map_width (game_map stray_game)
   \<and> rect_height (rect (heap stray_game (Ref Builder 0))) \<le> map_height (game_map stray_game)
   \<and> \<not> holdPosition (heap stray_game (Ref Builder 0))
   \<and> 0 \<le> rect_x (rect (heap (act (1 / 60) 0 (Ref Builder 0) stray_game) (Ref Builder 0)))
   \<and> rect_x (rect (heap (act (1 / 60) 0 (Ref Builder 0) stray_game) (Ref Builder 0)))
       \<le> map_width (game_map (act (1 / 60) 0 (Ref Builder 0) stray_game))
          - rect_width (rect (heap (act (1 / 60) 0 (Ref Builder 0) stray_game) (Ref Builder 0)))"
proof -
  have r: "run (Ref Builder 0) stray_game (Suc 0) (act (1 / 60) 0 (Ref Builder 0) stray_game)"
    by (rule run.tick [OF run.start])
  have h: "is_Infantry (cls_of (Ref Builder 0))"
    "rect_width (rect (heap stray_game (Ref Builder 0))) \<le> map_width (game_map stray_game)"
    "rect_height (rect (heap stray_game (Ref Builder 0))) \<le> map_height (game_map stray_game)"
    "\<not> holdPosition (heap stray_game (Ref Builder 0))"
    by (simp_all add: stray_game_eval)
  from position_stays_in_bounds [OF r _ h] r h show ?thesis
    by (simp add: stray_game_eval)
qed

subsection \<open>Claims about production\<close>

lemma Unit_act_heap:
  "heap (Unit_act r g) q =
     (if q = r \<and> health (heap g r) > 0
      then (heap g r)\<lparr>personal_space :=
                       \<lparr>rect_x = rect_x (rect (heap g r)) - 3, rect_y = rect_y (rect (heap g r)) - 3,
                        rect_width = rect_width (rect (heap g r)) + 6,
                        rect_height = rect_height (rect (heap g r)) + 6\<rparr>,
                     sight :=
                       \<lparr>rect_x = rect_x (rect (heap g r)) - 300, rect_y = rect_y (rect (heap g r)) - 300,
                        rect_width = rect_width (rect (heap g r)) + 600,
                        rect_height = rect_height (rect (heap g r)) + 600\<rparr>\<rparr>
      else heap g q)"
  by (simp add: Unit_act_def Let_def)

lemma init_after_build_heap:
  "heap (init_after_build r g) q =
     (if q = r then (heap g r)\<lparr>didInitializeAfterBuild := True\<rparr> else heap g q)"
  by (cases "heap g r") (auto simp add: init_after_build_def Let_def)

lemma add_unit_heap [simp]: "heap (snd (add_unit i r g)) = heap g"
  by (cases i) (simp_all add: ComputerPlayer_add_unit_def Player_add_unit_roster)

lemma init_after_build_roster:
  "units (players (init_after_build r g) i) = units (players g i)"
  "game_map (init_after_build r g) = game_map g"
  by (simp_all add: init_after_build_def Let_def)

lemma upkeep_facts:
  "buildTime (heap (init_after_build b (Unit_act b g)) q) = buildTime (heap g q)"
  "queue (heap (init_after_build b (Unit_act b g)) q) = queue (heap g q)"
  "rect (heap (init_after_build b (Unit_act b g)) q) = rect (heap g q)"
  "master (heap (init_after_build b (Unit_act b g)) q) = master (heap g q)"
  "is_being_built (heap (Unit_act b g) q) = is_being_built (heap g q)"
  by (simp_all add: init_after_build_heap Unit_act_heap is_being_built_def)

lemma Building_act_produce:
  assumes fin: "\<not> is_being_built (heap g b)" and q: "queue (heap g b) = n # rest"
  shows "Building_act dt b g =
     produce dt b n
       (upd_player (master (heap g b))
          (\<lambda>p. p\<lparr>resources := fadd (resources p)
                                     (fmul (resourceIncrease (heap (init_after_build b (Unit_act b g)) b)) (tick_scale dt))\<rparr>)
          (init_after_build b (Unit_act b g)))"
  using fin q
  by (simp add: Building_act_def Let_def upkeep_facts next_order_def)


lemma set_location_simps [simp]:
  "game_map (set_location r x y g) = game_map g"
  "players (set_location r x y g) = players g"
  by (simp_all add: set_location_def)

lemma production_state_facts:
  "buildTime (heap (production_state dt b n rest g) q)
     = (if q = n then fsub (buildTime (heap g n)) (tick_scale dt) else buildTime (heap g q))"
  "rect (heap (production_state dt b n rest g) q) = rect (heap g q)"
  "master (heap (production_state dt b n rest g) q) = master (heap g q)"
  "queue (heap (production_state dt b n rest g) b) = rest"
  by (simp_all add: production_state_def Let_def upkeep_facts)

lemma Building_act_pending:
  assumes fin: "\<not> is_being_built (heap g b)" and q: "queue (heap g b) = n # rest"
    and t: "0 < fsub (buildTime (heap g n)) (tick_scale dt)"
  shows "Building_act dt b g =
     upd_unit n (\<lambda>u. u\<lparr>buildTime := fsub (buildTime u) (tick_scale dt)\<rparr>)
       (upd_player (master (heap g b))
          (\<lambda>p. p\<lparr>resources := fadd (resources p)
                                     (fmul (resourceIncrease (heap (init_after_build b (Unit_act b g)) b)) (tick_scale dt))\<rparr>)
          (init_after_build b (Unit_act b g)))"
  using t by (simp add: Building_act_produce [OF fin q] produce_def Let_def upkeep_facts)

lemma Building_act_done:
  assumes fin: "\<not> is_being_built (heap g b)" and q: "queue (heap g b) = n # rest"
    and nb: "n \<noteq> b" and t: "fsub (buildTime (heap g n)) (tick_scale dt) \<le> 0"
  shows "Building_act dt b g =
     (let gq = production_state dt b n rest g;
          g3 = snd (add_unit (master (heap g b)) n gq);
          x = rect_x (rect (heap g b)) + rect_width (rect (heap g b));
          y = rect_y (rect (heap g b)) + rect_height (rect (heap g b));
          g4 = (if is_Infantry (cls_of n)
                then upd_unit n (\<lambda>u. u\<lparr>destinationY := y\<rparr>)
                       (upd_unit n (\<lambda>u. u\<lparr>destinationX := x\<rparr>) g3)
                else g3)
      in set_location n x y g4)"
  using t nb q
  by (simp add: Building_act_produce [OF fin q] produce_def deliver_def Let_def upkeep_facts
      dequeue_def production_state_def)

lemma production_game_eval:
  "is_being_built (heap production_game (Ref Barracks 0)) = False"
  "queue (heap production_game (Ref Barracks 0)) = [Ref Spearman 0, Ref Swordsman 0]"
  "buildTime (heap production_game (Ref Spearman 0)) = 9 / 2"
  "buildTime (heap production_game (Ref Swordsman 0)) = 250"
  "rect (heap production_game (Ref Barracks 0))
     = \<lparr>rect_x = 500, rect_y = 500, rect_width = 90, rect_height = 90\<rparr>"
  "master (heap production_game (Ref Barracks 0)) = HumanPlayer"
  by (simp_all add: production_game_def is_being_built_def set_location_def fresh_game_def
      Let_def init_defs)

lemma frame_75ms:
  "fl (3 / 40) = 5404319552844595 / 72057594037927936"
  "tick_scale (fl (3 / 40)) = 9 / 2"
  "fsub (9 / 2) (tick_scale (fl (3 / 40))) = 0"
  by (simp_all add: tick_scale_def NOMINAL_TICK_HZ_def fl_eval)

lemma production_accrual:
  "fadd 800 (fmul (fl (1 / 1000)) (9 / 2)) = 879614250023125 / 1099511627776"
  by (simp add: fl_eval)

lemma production_game_add:
  "map_units (game_map (snd (Player_add_unit HumanPlayer (Ref Spearman 0)
      (production_state (fl (3 / 40)) (Ref Barracks 0) (Ref Spearman 0) [Ref Swordsman 0]
         production_game))))
   = [Ref Barracks 0, Ref Spearman 0]"
  by (simp add: production_state_def production_game_def Unit_act_def init_after_build_def
      Player_add_unit_def get_unit_to_add_def Map_add_unit_def set_location_def fresh_game_def
      frame_75ms(2) production_accrual Let_def init_defs)

text \<open>
  Claim C5.  For a finished building \<open>b\<close> whose queue is \<open>n # rest\<close>, one \<^verbatim>\<open>act\<close> lowers the
  remaining build time of the front order \<open>n\<close> by \<open>dt * NOMINAL_TICK_HZ\<close> and of no other
  object; product and difference are the program's float operations, so the new value is
  the one the program stores and tests.  While that value stays positive the queue, the
  unit lists and the order's position are left alone.  Once it is \<open>\<le> 0\<close> the order leaves
  the queue, the players and the map become what \<^verbatim>\<open>add_unit\<close> of the owning player makes of
  them (so every check of \<^verbatim>\<open>add_unit\<close> decides whether the unit is registered), and the unit
  is placed with its top-left corner on \<open>b\<close>'s bottom-right corner, which is also its
  destination.
\<close>

theorem building_production:
  assumes fin: "\<not> is_being_built (heap g b)" and q: "queue (heap g b) = n # rest"
    and nb: "n \<noteq> b"
  shows "buildTime (heap (Building_act dt b g) n)
       = fsub (buildTime (heap g n)) (fmul dt NOMINAL_TICK_HZ)
     \<and> (\<forall>r. r \<noteq> n \<longrightarrow> buildTime (heap (Building_act dt b g) r) = buildTime (heap g r))
     \<and> (0 < fsub (buildTime (heap g n)) (fmul dt NOMINAL_TICK_HZ) \<longrightarrow>
          queue (heap (Building_act dt b g) b) = n # rest
          \<and> rect (heap (Building_act dt b g) n) = rect (heap g n)
          \<and> (\<forall>i. units (players (Building_act dt b g) i) = units (players (Unit_act b g) i))
          \<and> game_map (Building_act dt b g) = game_map (Unit_act b g))
     \<and> (fsub (buildTime (heap g n)) (fmul dt NOMINAL_TICK_HZ) \<le> 0 \<longrightarrow>
          queue (heap (Building_act dt b g) b) = rest
          \<and> players (Building_act dt b g)
              = players (snd (add_unit (master (heap g b)) n (production_state dt b n rest g)))
          \<and> game_map (Building_act dt b g)
              = game_map (snd (add_unit (master (heap g b)) n (production_state dt b n rest g)))
          \<and> rect_x (rect (heap (Building_act dt b g) n))
              = rect_x (rect (heap g b)) + rect_width (rect (heap g b))
          \<and> rect_y (rect (heap (Building_act dt b g) n))
              = rect_y (rect (heap g b)) + rect_height (rect (heap g b))
          \<and> fx (heap (Building_act dt b g) n)
              = real_of_int (rect_x (rect (heap g b)) + rect_width (rect (heap g b)))
          \<and> fy (heap (Building_act dt b g) n)
              = real_of_int (rect_y (rect (heap g b)) + rect_height (rect (heap g b)))
          \<and> (is_Infantry (cls_of n) \<longrightarrow>
                destinationX (heap (Building_act dt b g) n)
                  = rect_x (rect (heap g b)) + rect_width (rect (heap g b))
                \<and> destinationY (heap (Building_act dt b g) n)
                  = rect_y (rect (heap g b)) + rect_height (rect (heap g b))))"
proof -
  have ts: "fmul dt NOMINAL_TICK_HZ = tick_scale dt" by (simp add: tick_scale_def)
  have pending: ?thesis if t: "0 < fsub (buildTime (heap g n)) (tick_scale dt)"
  proof -
    note e = Building_act_pending [OF fin q t]
    show ?thesis
      unfolding ts using t nb q
      by (simp add: e upkeep_facts init_after_build_roster)
  qed
  have complete: ?thesis if t: "fsub (buildTime (heap g n)) (tick_scale dt) \<le> 0"
  proof -
    note e = Building_act_done [OF fin q nb t]
    show ?thesis
      unfolding ts using t nb
      by (simp add: e Let_def set_location_def production_state_facts)
  qed
  show ?thesis
    using pending complete by (cases "0 < fsub (buildTime (heap g n)) (tick_scale dt)") auto
qed

theorem building_production_witness:
  "\<not> is_being_built (heap production_game (Ref Barracks 0))
   \<and> queue (heap production_game (Ref Barracks 0)) = [Ref Spearman 0, Ref Swordsman 0]
   \<and> Ref Spearman 0 \<noteq> Ref Barracks 0
   \<and> buildTime (heap production_game (Ref Spearman 0)) = 9 / 2
   \<and> fl (3 / 40) < 3 / 40
   \<and> fmul (fl (3 / 40)) NOMINAL_TICK_HZ = 9 / 2
   \<and> buildTime (heap (Building_act (fl (3 / 40)) (Ref Barracks 0) production_game)
        (Ref Spearman 0)) = 0
   \<and> queue (heap (Building_act (fl (3 / 40)) (Ref Barracks 0) production_game)
        (Ref Barracks 0)) = [Ref Swordsman 0]
   \<and> buildTime (heap (Building_act (fl (3 / 40)) (Ref Barracks 0) production_game)
        (Ref Swordsman 0)) = 250
   \<and> rect_x (rect (heap (Building_act (fl (3 / 40)) (Ref Barracks 0) production_game)
        (Ref Spearman 0))) = 590
   \<and> rect_y (rect (heap (Building_act (fl (3 / 40)) (Ref Barracks 0) production_game)
        (Ref Spearman 0))) = 590
   \<and> map_units (game_map (Building_act (fl (3 / 40)) (Ref Barracks 0) production_game))
       = [Ref Barracks 0, Ref Spearman 0]"
proof -
  have h: "\<not> is_being_built (heap production_game (Ref Barracks 0))"
    "queue (heap production_game (Ref Barracks 0)) = [Ref Spearman 0, Ref Swordsman 0]"
    "Ref Spearman 0 \<noteq> Ref Barracks 0"
    by (simp_all add: production_game_eval)
  have b: "buildTime (heap production_game (Ref Spearman 0)) = 9 / 2"
    by (simp add: production_game_eval)
  have t: "fmul (fl (3 / 40)) NOMINAL_TICK_HZ = 9 / 2"
    using frame_75ms(2) by (simp add: tick_scale_def)
  have z: "fsub (9 / 2) (9 / 2) = 0" by (simp add: fsub_def fl_def)
  have l: "fl (3 / 40) < 3 / 40" by (simp add: frame_75ms(1))
  from building_production [OF h, of "fl (3 / 40)"] show ?thesis
    unfolding b t z using h l
    by (simp add: production_game_eval production_game_add)
qed

subsection \<open>Health stays below its maximum and dead units leave the lists\<close>

lemma tame_refl [simp]: "tame g g"
  by (simp add: tame_def)

lemma tame_trans:
  assumes a: "tame g g1" and b: "tame g1 g2"
  shows "tame g g2"
  unfolding tame_def
proof (intro allI conjI)
  fix x
  show "master (heap g2 x) = master (heap g x)"
    using a b by (simp add: tame_def)
  show "maxHealth (heap g2 x) = maxHealth (heap g x)"
    using a b by (simp add: tame_def)
  have "health (heap g2 x) \<le> health (heap g1 x)" "health (heap g1 x) \<le> health (heap g x)"
    using a b by (simp_all add: tame_def)
  then show "health (heap g2 x) \<le> health (heap g x)" by simp
  have "set (queue (heap g2 x)) \<subseteq> set (queue (heap g1 x))"
    "set (queue (heap g1 x)) \<subseteq> set (queue (heap g x))"
    using a b by (simp_all add: tame_def)
  then show "set (queue (heap g2 x)) \<subseteq> set (queue (heap g x))" by simp
qed

lemma tame_heap_eq: "heap g' = heap g \<Longrightarrow> tame g g'"
  by (simp add: tame_def)

lemma tame_upd_unit:
  "master (f (heap g r)) = master (heap g r) \<Longrightarrow> maxHealth (f (heap g r)) = maxHealth (heap g r)
   \<Longrightarrow> health (f (heap g r)) \<le> health (heap g r)
   \<Longrightarrow> set (queue (f (heap g r))) \<subseteq> set (queue (heap g r))
   \<Longrightarrow> tame g (upd_unit r f g)"
  by (simp add: tame_def)

lemma roster_simps [simp]:
  "roster (upd_unit r f g) = roster g"
  "roster (set_location r x y g) = roster g"
  by (simp_all add: roster_def)

lemma tame_Unit_act: "tame g (Unit_act r g)"
  by (simp add: tame_def Unit_act_heap)

lemma tame_set_location: "tame g (set_location r x y g)"
  by (simp add: tame_def set_location_def)

lemma tame_Infantry_gnll: "tame g (snd (Infantry_get_next_logical_location dt r g))"
  by (simp add: tame_def Infantry_get_next_logical_location_def Let_def)

lemma roster_Infantry_gnll [simp]:
  "roster (snd (Infantry_get_next_logical_location dt r g)) = roster g"
  by (simp add: Infantry_get_next_logical_location_def Let_def)

lemma tame_Offensive_gnll: "tame g (snd (OffensiveInfantry_get_next_logical_location dt r g))"
proof (cases "holdPosition (heap g r)")
  case True
  then show ?thesis by (simp add: OffensiveInfantry_get_next_logical_location_def Let_def)
next
  case False
  define g1 where "g1 =
     (if \<not> ignoreEnemies (heap g r)
         \<and> (obsession (heap g r) = None \<or> at_destination (heap g r) \<or> attackMoving (heap g r))
      then (case find (\<lambda>q. side (heap g q) \<noteq> side (heap g r) \<and> \<not> attacking (heap g r))
                   (units_in_sight r g) of
              None \<Rightarrow> g
            | Some q \<Rightarrow>
                upd_unit r (\<lambda>u. u\<lparr>obsession := Some q,
                                   destinationX := rect_x (rect (heap g q)),
                                   destinationY := rect_y (rect (heap g q))\<rparr>) g)
      else g)"
  have e: "OffensiveInfantry_get_next_logical_location dt r g
           = Infantry_get_next_logical_location dt r g1"
    using False by (simp add: OffensiveInfantry_get_next_logical_location_def Let_def g1_def)
  have "tame g g1"
    unfolding g1_def by (auto intro: tame_upd_unit split: option.splits)
  then show ?thesis
    unfolding e using tame_Infantry_gnll by (rule tame_trans)
qed

lemma roster_Offensive_gnll [simp]:
  "roster (snd (OffensiveInfantry_get_next_logical_location dt r g)) = roster g"
  by (simp add: OffensiveInfantry_get_next_logical_location_def Let_def split: option.splits)

lemma tame_gnll: "tame g (snd (get_next_logical_location dt r g))"
  by (simp add: get_next_logical_location_def tame_Offensive_gnll tame_Infantry_gnll)

lemma roster_gnll [simp]: "roster (snd (get_next_logical_location dt r g)) = roster g"
  by (simp add: get_next_logical_location_def)

lemma tame_Infantry_act: "tame g (Infantry_act dt r g)"
  unfolding Infantry_act_def Let_def split_beta
  by (rule tame_trans [OF tame_trans [OF tame_Unit_act tame_gnll] tame_set_location])

lemma roster_Infantry_act [simp]: "roster (Infantry_act dt r g) = roster (Unit_act r g)"
  by (simp add: Infantry_act_def Let_def split_beta)

lemma tame_attack:
  assumes "0 \<le> rnd"
  shows "tame g (attack rnd a obss g)"
proof -
  define g1 where "g1 = upd_unit a (\<lambda>u. u\<lparr>attacking := True, attackMoving := False\<rparr>) g"
  define damage where "damage =
     (if unit_power (heap g1 a) - defense (heap g1 obss) < 1 then rnd
      else unit_power (heap g1 a) - defense (heap g1 obss))"
  define g2 where "g2 =
     (if attackUpgrade (players g1 (master (heap g1 a)))
      then upd_unit obss (\<lambda>u. u\<lparr>health := health u - real_of_int (damage + 2)\<rparr>) g1
      else upd_unit obss (\<lambda>u. u\<lparr>health := health u - real_of_int damage\<rparr>) g1)"
  have d: "0 \<le> damage" using assms by (simp add: damage_def)
  have t1: "tame g g1" unfolding g1_def by (rule tame_upd_unit) simp_all
  have t2: "tame g1 g2" unfolding g2_def using d by (auto intro!: tame_upd_unit)
  have t3: "tame g2 (if health (heap g2 obss) < 1
                     then upd_unit a (\<lambda>u. u\<lparr>obsession := None, holdPosition := False\<rparr>) g2
                     else g2)"
    by (auto intro!: tame_upd_unit)
  have "attack rnd a obss g =
          (if health (heap g2 obss) < 1
           then upd_unit a (\<lambda>u. u\<lparr>obsession := None, holdPosition := False\<rparr>) g2
           else g2)"
    unfolding attack_def Let_def g2_def damage_def g1_def by (rule refl)
  then show ?thesis using tame_trans [OF tame_trans [OF t1 t2] t3] by simp
qed

lemma roster_attack [simp]: "roster (attack rnd a obss g) = roster g"
  by (simp add: attack_def Let_def)

lemma roster_Unit_act:
  "roster (Unit_act r g) =
     (if health (heap g r) > 0 then roster g
      else (remove1 r (map_units (game_map g)),
            (if master (heap g r) = HumanPlayer then remove1 r (units (players g HumanPlayer))
             else units (players g HumanPlayer)),
            (if master (heap g r) = ComputerPlayer then remove1 r (units (players g ComputerPlayer))
             else units (players g ComputerPlayer))))"
proof (cases "health (heap g r) > 0")
  case True
  then show ?thesis by (simp add: Unit_act_def Let_def)
next
  case False
  then have "Unit_act r g = die r g" by (simp add: Unit_act_def Let_def)
  then show ?thesis using False by (simp add: roster_def die_roster)
qed

lemma roster_Unit_act_cong:
  "roster g1 = roster g \<Longrightarrow> health (heap g1 r) = health (heap g r)
   \<Longrightarrow> master (heap g1 r) = master (heap g r) \<Longrightarrow> roster (Unit_act r g1) = roster (Unit_act r g)"
proof -
  assume a: "roster g1 = roster g" and h: "health (heap g1 r) = health (heap g r)"
    and m: "master (heap g1 r) = master (heap g r)"
  have e: "map_units (game_map g1) = map_units (game_map g)"
    "units (players g1 HumanPlayer) = units (players g HumanPlayer)"
    "units (players g1 ComputerPlayer) = units (players g ComputerPlayer)"
    using a by (simp_all add: roster_def)
  show ?thesis
    by (simp only: roster_Unit_act h m e a)
qed

lemma OffensiveInfantry_act_frame:
  shows "0 \<le> rnd \<Longrightarrow> tame g (OffensiveInfantry_act dt rnd r g)"
    and OffensiveInfantry_act_roster:
      "roster (OffensiveInfantry_act dt rnd r g) = roster (Unit_act r g)"
proof -
  define g1 where "g1 =
     (if health (heap g r) > 0
      then upd_unit r
             (\<lambda>u. u\<lparr>personal_space :=
                \<lparr>rect_x = rect_x (rect u) - attackDistance u,
                 rect_y = rect_y (rect u) - attackDistance u,
                 rect_width = rect_width (rect u) + attackDistance u * 2,
                 rect_height = rect_height (rect u) + attackDistance u * 2\<rparr>\<rparr>) g
      else g)"
  define g2 where "g2 =
     (if at_destination (heap g1 r)
      then upd_unit r (\<lambda>u. u\<lparr>ignoreEnemies := False, attackMoving := False\<rparr>) g1
      else g1)"
  define g4 where "g4 = upd_unit r (\<lambda>u. u\<lparr>attacking := False\<rparr>) (Infantry_act dt r g2)"
  have t2: "tame g g2"
    unfolding g2_def g1_def by (auto intro!: tame_upd_unit tame_trans [OF tame_upd_unit tame_upd_unit])
  have r2: "roster g2 = roster g" "health (heap g2 r) = health (heap g r)"
    "master (heap g2 r) = master (heap g r)"
    by (simp_all add: g2_def g1_def)
  have t4: "tame g2 g4"
    unfolding g4_def by (rule tame_trans [OF tame_Infantry_act]) (auto intro!: tame_upd_unit)
  have "roster (Unit_act r g2) = roster (Unit_act r g)"
    using r2 by (rule roster_Unit_act_cong)
  then have r4: "roster g4 = roster (Unit_act r g)"
    by (simp add: g4_def)
  have e: "OffensiveInfantry_act dt rnd r g =
     (case obsession (heap g4 r) of
        None \<Rightarrow> upd_unit r (\<lambda>u. u\<lparr>holdPosition := False\<rparr>) g4
      | Some obss \<Rightarrow>
          if \<not> ignoreEnemies (heap g4 r) \<and> side (heap g4 obss) \<noteq> side (heap g4 r)
             \<and> colliderect (personal_space (heap g4 r)) (personal_space (heap g4 obss))
             \<and> health (heap g4 r) > 0
          then attack rnd r obss (upd_unit r (\<lambda>u. u\<lparr>holdPosition := True\<rparr>) g4)
          else upd_unit r (\<lambda>u. u\<lparr>holdPosition := False\<rparr>) g4)"
    unfolding OffensiveInfantry_act_def Let_def g4_def g2_def g1_def by (rule refl)
  have t5: "tame g4 (OffensiveInfantry_act dt rnd r g)" if "0 \<le> rnd"
    unfolding e using that
    by (auto intro!: tame_upd_unit tame_trans [OF tame_upd_unit tame_attack] split: option.splits)
  show "tame g (OffensiveInfantry_act dt rnd r g)" if "0 \<le> rnd"
    using tame_trans [OF tame_trans [OF t2 t4] t5 [OF that]] .
  show "roster (OffensiveInfantry_act dt rnd r g) = roster (Unit_act r g)"
    unfolding e using r4 by (simp split: option.splits)
qed

lemma Builder_act_frame:
  shows "tame g (Builder_act dt r g)"
    and "roster (Builder_act dt r g) = roster (Unit_act r g)"
proof -
  define g1 where "g1 =
     (case toBuild (heap g r) of
        None \<Rightarrow> g
      | Some t \<Rightarrow>
          if colliderect (personal_space (heap g r)) (personal_space (heap g t)) \<and> building (heap g r)
          then upd_unit r (\<lambda>u. u\<lparr>destinationX := rect_x (rect u),
                                 destinationY := rect_y (rect u)\<rparr>) g
          else g)"
  define g2 where "g2 = Infantry_act dt r g1"
  have t1: "tame g g1"
    unfolding g1_def by (auto intro!: tame_upd_unit split: option.splits)
  have r1: "roster g1 = roster g" "health (heap g1 r) = health (heap g r)"
    "master (heap g1 r) = master (heap g r)"
    by (simp_all add: g1_def split: option.splits)
  have t2: "tame g1 g2" unfolding g2_def by (rule tame_Infantry_act)
  have "roster (Unit_act r g1) = roster (Unit_act r g)"
    using r1 by (rule roster_Unit_act_cong)
  then have r2: "roster g2 = roster (Unit_act r g)"
    by (simp add: g2_def)
  have e: "Builder_act dt r g =
     (case toBuild (heap g2 r) of
        None \<Rightarrow> g2
      | Some t \<Rightarrow>
          if at_destination (heap g2 r) \<and> building (heap g2 r)
          then
            let g3 = upd_unit t (\<lambda>b. b\<lparr>buildTime := fsub (buildTime b) (tick_scale dt)\<rparr>) g2
            in if \<not> is_being_built (heap g3 t)
               then upd_unit r (\<lambda>u. u\<lparr>building := False\<rparr>) g3
               else g3
          else g2)"
    unfolding Builder_act_def Let_def g2_def g1_def by (rule refl)
  have t3: "tame g2 (Builder_act dt r g)"
    unfolding e Let_def
    by (auto intro!: tame_upd_unit tame_trans [OF tame_upd_unit tame_upd_unit] split: option.splits)
  show "tame g (Builder_act dt r g)"
    using tame_trans [OF tame_trans [OF t1 t2] t3] .
  show "roster (Builder_act dt r g) = roster (Unit_act r g)"
    unfolding e Let_def using r2 by (simp split: option.splits)
qed

lemma grows_same: "roster g' = roster g \<Longrightarrow> grows Q g g'"
  unfolding grows_def roster_def
  by (intro exI [of _ "[]"]) simp

lemma grows_add_unit: "t \<in> Q \<Longrightarrow> grows Q g (snd (add_unit i t g))"
proof -
  assume t: "t \<in> Q"
  consider "add_unit i t g = (False, g)" | "add_unit i t g = Player_add_unit i t g"
    using add_unit_cases by blast
  then show ?thesis
  proof cases
    case 1
    then show ?thesis by (simp add: grows_same)
  next
    case 2
    show ?thesis
    proof (cases "fst (Player_add_unit i t g)")
      case False
      then show ?thesis
        unfolding 2 by (intro grows_same) (simp add: roster_def Player_add_unit_roster)
    next
      case True
      show ?thesis
        unfolding 2 grows_def roster_def using True t
        by (cases i)
           (auto simp add: Player_add_unit_roster intro!: exI [of _ "[t]"] exI [of _ "[]"])
    qed
  qed
qed

lemma Hero_act_frame:
  "x \<noteq> r \<Longrightarrow> heap (Hero_act dt rnd r g) x = heap (OffensiveInfantry_act dt rnd r g) x"
  "master (heap (Hero_act dt rnd r g) r) = master (heap (OffensiveInfantry_act dt rnd r g) r)"
  "maxHealth (heap (Hero_act dt rnd r g) r) = maxHealth (heap (OffensiveInfantry_act dt rnd r g) r)"
  "queue (heap (Hero_act dt rnd r g) r) = queue (heap (OffensiveInfantry_act dt rnd r g) r)"
  "health (heap (Hero_act dt rnd r g) r) \<le> maxHealth (heap (Hero_act dt rnd r g) r)"
  "roster (Hero_act dt rnd r g) = roster (OffensiveInfantry_act dt rnd r g)"
  by (simp_all add: Hero_act_def Let_def)

lemma tame_init_after_build: "tame g (init_after_build r g)"
  by (simp add: tame_def init_after_build_heap)

lemma roster_init_after_build [simp]: "roster (init_after_build r g) = roster g"
  by (simp add: roster_def init_after_build_def Let_def)

lemma dequeue_subset: "dequeue q = (x, q') \<Longrightarrow> set q' \<subseteq> set q"
  by (auto simp add: dequeue_def split: list.splits)

lemma dequeue_front: "dequeue q = (Some t, q') \<Longrightarrow> t \<in> set q"
  by (auto simp add: dequeue_def split: list.splits)

lemma grows_roster_eq: "grows Q g g1 \<Longrightarrow> roster g2 = roster g1 \<Longrightarrow> grows Q g g2"
  by (simp add: grows_def)

lemma grows_from_eq: "roster g1 = roster g \<Longrightarrow> grows Q g1 g2 \<Longrightarrow> grows Q g g2"
  by (simp add: grows_def roster_def)

lemma deliver_frame:
  assumes tq: "t \<in> Q"
  shows "tame g (deliver r t g)" and "grows Q g (deliver r t g)"
proof -
  define g3 where "g3 = snd (add_unit (master (heap g r)) t g)"
  define g4 where "g4 =
     (if is_Infantry (cls_of t)
      then
        let g' = upd_unit t
                   (\<lambda>u. u\<lparr>destinationX :=
                      rect_x (rect (heap g3 r)) + rect_width (rect (heap g3 r))\<rparr>) g3
        in upd_unit t
             (\<lambda>u. u\<lparr>destinationY :=
                rect_y (rect (heap g' r)) + rect_height (rect (heap g' r))\<rparr>) g'
      else g3)"
  have e: "deliver r t g =
             set_location t
              (rect_x (rect (heap g4 r)) + rect_width (rect (heap g4 r)))
              (rect_y (rect (heap g4 r)) + rect_height (rect (heap g4 r))) g4"
    unfolding deliver_def Let_def g4_def g3_def by (rule refl)
  have t3: "tame g g3" unfolding g3_def by (rule tame_heap_eq) simp
  have r3: "grows Q g g3" unfolding g3_def using tq by (rule grows_add_unit)
  have t4: "tame g3 g4"
    unfolding g4_def Let_def
    by (auto intro!: tame_trans [OF tame_upd_unit tame_upd_unit])
  have r4: "roster g4 = roster g3" by (simp add: g4_def Let_def)
  show "tame g (deliver r t g)"
    unfolding e using tame_trans [OF tame_trans [OF t3 t4] tame_set_location] .
  show "grows Q g (deliver r t g)"
    unfolding e using r3 by (rule grows_roster_eq) (simp add: r4)
qed

lemma produce_frame:
  shows "tame g (produce dt r n g)"
    and "grows (set (queue (heap g r))) g (produce dt r n g)"
proof -
  define g1 where "g1 = upd_unit n (\<lambda>u. u\<lparr>buildTime := fsub (buildTime u) (tick_scale dt)\<rparr>) g"
  have t1: "tame g g1" unfolding g1_def by (rule tame_upd_unit) simp_all
  have r1: "roster g1 = roster g" by (simp add: g1_def)
  have q1: "queue (heap g1 r) = queue (heap g r)" by (simp add: g1_def)
  obtain x q where d: "dequeue (queue (heap g1 r)) = (x, q)" by (cases "dequeue (queue (heap g1 r))")
  have sub: "set q \<subseteq> set (queue (heap g1 r))" using d by (rule dequeue_subset)
  define g2 where "g2 = upd_unit r (\<lambda>u. u\<lparr>queue := q\<rparr>) g1"
  have t2: "tame g1 g2" unfolding g2_def using sub by (intro tame_upd_unit) simp_all
  have r2: "roster g2 = roster g" by (simp add: g2_def r1)
  have both: "tame g (produce dt r n g) \<and> grows (set (queue (heap g r))) g (produce dt r n g)"
  proof (cases "buildTime (heap g1 n) \<le> 0")
    case False
    then have e: "produce dt r n g = g1" by (simp add: produce_def Let_def g1_def)
    show ?thesis unfolding e using t1 r1 by (simp add: grows_same)
  next
    case fin: True
    show ?thesis
    proof (cases x)
      case None
      then have e: "produce dt r n g = g2"
        using fin d by (simp add: produce_def Let_def g1_def [symmetric] g2_def)
      show ?thesis unfolding e using tame_trans [OF t1 t2] r2 by (simp add: grows_same)
    next
      case (Some t)
      have e: "produce dt r n g = deliver r t g2"
        using fin d Some by (simp add: produce_def Let_def g1_def [symmetric] g2_def)
      have tq: "t \<in> set (queue (heap g r))"
        using dequeue_front [of "queue (heap g1 r)" t q] d Some q1 by simp
      have "tame g (produce dt r n g)"
        unfolding e using tame_trans [OF tame_trans [OF t1 t2] deliver_frame(1) [OF tq]] .
      moreover have "grows (set (queue (heap g r))) g (produce dt r n g)"
        unfolding e using r2 deliver_frame(2) [OF tq] by (rule grows_from_eq)
      ultimately show ?thesis by simp
    qed
  qed
  show "tame g (produce dt r n g)" using both by simp
  show "grows (set (queue (heap g r))) g (produce dt r n g)" using both by simp
qed

lemma roster_upd_player:
  "units (f (players g i)) = units (players g i) \<Longrightarrow> roster (upd_player i f g) = roster g"
  by (cases i) (auto simp add: roster_def)

lemma Building_act_frame:
  shows "tame g (Building_act dt r g)"
    and "grows (set (queue (heap g r))) (Unit_act r g) (Building_act dt r g)"
proof -
  define g1 where "g1 = Unit_act r g"
  define g2 where "g2 = init_after_build r g1"
  define g3 where "g3 =
     upd_player (master (heap g2 r))
       (\<lambda>p. p\<lparr>resources := fadd (resources p)
                                     (fmul (resourceIncrease (heap g2 r)) (tick_scale dt))\<rparr>) g2"
  have t1: "tame g g1" unfolding g1_def by (rule tame_Unit_act)
  have t3: "tame g1 g3"
    unfolding g3_def g2_def
    by (rule tame_trans [OF tame_init_after_build]) (rule tame_heap_eq, simp)
  have r3: "roster g3 = roster g1" by (simp add: g3_def g2_def roster_upd_player)
  have q3: "queue (heap g3 r) = queue (heap g r)"
    by (simp add: g3_def g2_def g1_def upkeep_facts)
  have e: "Building_act dt r g =
     (if \<not> is_being_built (heap g1 r)
      then (case next_order (queue (heap g3 r)) of None \<Rightarrow> g3 | Some n \<Rightarrow> produce dt r n g3)
      else g1)"
    unfolding Building_act_def Let_def g3_def g2_def g1_def by (rule refl)
  have a: "tame g1 (Building_act dt r g)"
    unfolding e using t3 tame_trans [OF t3 produce_frame(1)]
    by (simp split: option.splits)
  have b: "grows (set (queue (heap g r))) g1 (Building_act dt r g)"
    unfolding e using r3 grows_from_eq [OF r3 produce_frame(2), where dt1 = dt and r1 = r] q3
    by (auto simp add: grows_same split: option.splits)
  show "tame g (Building_act dt r g)" using t1 a by (rule tame_trans)
  show "grows (set (queue (heap g r))) (Unit_act r g) (Building_act dt r g)"
    using b by (simp add: g1_def)
qed

lemma act_grows: "grows (set (queue (heap g q))) (Unit_act q g) (act dt rnd q g)"
proof -
  consider (hero) "is_Hero (cls_of q)"
    | (off) "\<not> is_Hero (cls_of q)" "is_OffensiveInfantry (cls_of q)"
    | (builder) "\<not> is_Hero (cls_of q)" "\<not> is_OffensiveInfantry (cls_of q)" "is_Infantry (cls_of q)"
    | (bld) "\<not> is_Hero (cls_of q)" "\<not> is_OffensiveInfantry (cls_of q)" "\<not> is_Infantry (cls_of q)"
    by blast
  then show ?thesis
  proof cases
    case hero
    have "roster (OffensiveInfantry_act dt rnd q g) = roster (Unit_act q g)"
      unfolding OffensiveInfantry_act_roster by (rule refl)
    then show ?thesis using hero by (simp add: act_def grows_same Hero_act_frame)
  next
    case off
    then show ?thesis by (simp add: act_def grows_same OffensiveInfantry_act_roster)
  next
    case builder
    then show ?thesis by (simp add: act_def grows_same Builder_act_frame)
  next
    case bld
    then show ?thesis by (simp add: act_def Building_act_frame)
  qed
qed

lemma act_plain_tame:
  assumes "0 \<le> rnd" and "\<not> is_Hero (cls_of q)"
  shows "tame g (act dt rnd q g)"
  using assms
  by (simp add: act_def OffensiveInfantry_act_frame Builder_act_frame Building_act_frame)

lemma act_heap_frame:
  assumes rnd: "0 \<le> rnd"
  shows "master (heap (act dt rnd q g) x) = master (heap g x)"
    and "maxHealth (heap (act dt rnd q g) x) = maxHealth (heap g x)"
    and "set (queue (heap (act dt rnd q g) x)) \<subseteq> set (queue (heap g x))"
    and "x \<noteq> q \<or> \<not> is_Hero (cls_of q) \<Longrightarrow> health (heap (act dt rnd q g) x) \<le> health (heap g x)"
    and "health (heap g x) \<le> maxHealth (heap g x)
         \<Longrightarrow> health (heap (act dt rnd q g) x) \<le> maxHealth (heap (act dt rnd q g) x)"
proof -
  have all: "master (heap (act dt rnd q g) x) = master (heap g x)
    \<and> maxHealth (heap (act dt rnd q g) x) = maxHealth (heap g x)
    \<and> set (queue (heap (act dt rnd q g) x)) \<subseteq> set (queue (heap g x))
    \<and> (x \<noteq> q \<or> \<not> is_Hero (cls_of q) \<longrightarrow> health (heap (act dt rnd q g) x) \<le> health (heap g x))
    \<and> (health (heap g x) \<le> maxHealth (heap g x)
         \<longrightarrow> health (heap (act dt rnd q g) x) \<le> maxHealth (heap (act dt rnd q g) x))"
  proof (cases "is_Hero (cls_of q)")
    case False
    have "tame g (act dt rnd q g)" using rnd False by (rule act_plain_tame)
    then show ?thesis using False by (auto simp add: tame_def intro: order_trans)
  next
    case True
    have t: "tame g (OffensiveInfantry_act dt rnd q g)"
      using rnd by (rule OffensiveInfantry_act_frame)
    have e: "act dt rnd q g = Hero_act dt rnd q g" using True by (simp add: act_def)
    show ?thesis
    proof (cases "x = q")
      case True
      have h: "health (heap (Hero_act dt rnd q g) q) \<le> maxHealth (heap (Hero_act dt rnd q g) q)"
        by (rule Hero_act_frame(5))
      have m: "maxHealth (heap (Hero_act dt rnd q g) q) = maxHealth (heap g q)"
        using t by (simp add: Hero_act_frame(3) tame_def)
      have a: "master (heap (Hero_act dt rnd q g) q) = master (heap g q)"
        using t by (simp add: Hero_act_frame(2) tame_def)
      have u: "set (queue (heap (Hero_act dt rnd q g) q)) \<subseteq> set (queue (heap g q))"
        using t by (simp add: Hero_act_frame(4) tame_def)
      show ?thesis
        unfolding e using h m a u True \<open>is_Hero (cls_of q)\<close> by simp
    next
      case False
      then show ?thesis
        unfolding e using t by (auto simp add: Hero_act_frame tame_def intro: order_trans)
    qed
  qed
  show "master (heap (act dt rnd q g) x) = master (heap g x)" using all by simp
  show "maxHealth (heap (act dt rnd q g) x) = maxHealth (heap g x)" using all by simp
  show "set (queue (heap (act dt rnd q g) x)) \<subseteq> set (queue (heap g x))" using all by simp
  show "x \<noteq> q \<or> \<not> is_Hero (cls_of q) \<Longrightarrow> health (heap (act dt rnd q g) x) \<le> health (heap g x)"
    using all by simp
  show "health (heap g x) \<le> maxHealth (heap g x)
         \<Longrightarrow> health (heap (act dt rnd q g) x) \<le> maxHealth (heap (act dt rnd q g) x)"
    using all by simp
qed

lemma act_all_health:
  assumes "\<forall>k. 0 \<le> rnd k" and "health (heap g x) \<le> maxHealth (heap g x)"
  shows "health (heap (act_all dt rnd k rs g) x) \<le> maxHealth (heap (act_all dt rnd k rs g) x)"
  using assms
proof (induction rs arbitrary: g k)
  case Nil
  then show ?case by simp
next
  case (Cons q rs)
  have "0 \<le> rnd k" using Cons.prems(1) by simp
  then have "health (heap (act dt (rnd k) q g) x) \<le> maxHealth (heap (act dt (rnd k) q g) x)"
    using Cons.prems(2) by (rule act_heap_frame(5))
  then show ?case using Cons.IH [of "act dt (rnd k) q g" "Suc k"] Cons.prems(1) by simp
qed

lemma listed_Unit_act:
  "listed (Unit_act q g) i x =
     (if health (heap g q) \<le> 0 \<and> q = x
      then (count_list (map_units (game_map g)) x - 1,
            (if master (heap g q) = i then count_list (units (players g i)) x - 1
             else count_list (units (players g i)) x))
      else listed g i x)"
proof -
  have r: "roster (Unit_act q g) =
     (if health (heap g q) > 0 then roster g
      else (remove1 q (map_units (game_map g)),
            (if master (heap g q) = HumanPlayer then remove1 q (units (players g HumanPlayer))
             else units (players g HumanPlayer)),
            (if master (heap g q) = ComputerPlayer then remove1 q (units (players g ComputerPlayer))
             else units (players g ComputerPlayer))))"
    by (rule roster_Unit_act)
  show ?thesis
  proof (cases "health (heap g q) > 0")
    case True
    then have "roster (Unit_act q g) = roster g" using r by simp
    then show ?thesis using True by (cases i) (simp_all add: roster_def listed_def)
  next
    case False
    then have e: "map_units (game_map (Unit_act q g)) = remove1 q (map_units (game_map g))"
      "units (players (Unit_act q g) HumanPlayer) =
         (if master (heap g q) = HumanPlayer then remove1 q (units (players g HumanPlayer))
          else units (players g HumanPlayer))"
      "units (players (Unit_act q g) ComputerPlayer) =
         (if master (heap g q) = ComputerPlayer then remove1 q (units (players g ComputerPlayer))
          else units (players g ComputerPlayer))"
      using r by (simp_all add: roster_def)
    show ?thesis using False
      by (cases i) (simp_all add: listed_def e count_list_remove1)
  qed
qed

lemma listed_act:
  assumes "x \<notin> set (queue (heap g q))"
  shows "listed (act dt rnd q g) i x = listed (Unit_act q g) i x"
proof -
  have "grows (set (queue (heap g q))) (Unit_act q g) (act dt rnd q g)" by (rule act_grows)
  then obtain em eh ec where
    r: "roster (act dt rnd q g) =
          (map_units (game_map (Unit_act q g)) @ em,
           units (players (Unit_act q g) HumanPlayer) @ eh,
           units (players (Unit_act q g) ComputerPlayer) @ ec)"
    and s: "set em \<subseteq> set (queue (heap g q))" "set eh \<subseteq> set (queue (heap g q))"
      "set ec \<subseteq> set (queue (heap g q))"
    unfolding grows_def by blast
  have n: "x \<notin> set em" "x \<notin> set eh" "x \<notin> set ec" using s assms by blast+
  have e: "map_units (game_map (act dt rnd q g)) = map_units (game_map (Unit_act q g)) @ em"
    "units (players (act dt rnd q g) HumanPlayer) = units (players (Unit_act q g) HumanPlayer) @ eh"
    "units (players (act dt rnd q g) ComputerPlayer) = units (players (Unit_act q g) ComputerPlayer) @ ec"
    using r by (simp_all add: roster_def)
  show ?thesis using n by (cases i) (simp_all add: listed_def e)
qed

lemma doomed_step:
  assumes rnd: "0 \<le> rnd" and d: "doomed x i (q # rs) g"
  shows "doomed x i rs (act dt rnd q g)"
proof -
  let ?g = "act dt rnd q g"
  have nq: "\<forall>b. x \<notin> set (queue (heap g b))" and m: "master (heap g x) = i"
    and c1: "fst (listed g i x) = count_list (q # rs) x"
    and c2: "snd (listed g i x) \<le> count_list (q # rs) x"
    and h: "count_list (q # rs) x = 0 \<or> health (heap g x) \<le> 0"
    and o: "is_Hero (cls_of x) \<longrightarrow> count_list (q # rs) x \<le> 1"
    using d by (simp_all add: doomed_def)
  have nq': "\<forall>b. x \<notin> set (queue (heap ?g b))"
    using nq act_heap_frame(3) [OF rnd, of dt q g] by blast
  have m': "master (heap ?g x) = i" using m act_heap_frame(1) [OF rnd, of dt q g x] by simp
  have l: "listed ?g i x = listed (Unit_act q g) i x" using nq by (simp add: listed_act)
  show ?thesis
  proof (cases "q = x")
    case True
    have hx: "health (heap g x) \<le> 0" using h True by simp
    have l2: "listed ?g i x =
       (count_list (map_units (game_map g)) x - 1, count_list (units (players g i)) x - 1)"
      using l hx True m by (simp add: listed_Unit_act)
    have a: "fst (listed ?g i x) = count_list rs x" using l2 c1 True by (simp add: listed_def)
    have b: "snd (listed ?g i x) \<le> count_list rs x" using l2 c2 True by (simp add: listed_def)
    have c: "count_list rs x = 0 \<or> health (heap ?g x) \<le> 0"
    proof (cases "is_Hero (cls_of x)")
      case True
      then show ?thesis using o \<open>q = x\<close> by simp
    next
      case False
      then have "health (heap ?g x) \<le> health (heap g x)"
        using act_heap_frame(4) [OF rnd, of x q dt g] \<open>q = x\<close> by simp
      then show ?thesis using hx by simp
    qed
    have e: "is_Hero (cls_of x) \<longrightarrow> count_list rs x \<le> 1" using o True by simp
    show ?thesis unfolding doomed_def using nq' m' a b c e by blast
  next
    case False
    have l2: "listed ?g i x = listed g i x" using l False by (simp add: listed_Unit_act)
    have hh: "health (heap ?g x) \<le> health (heap g x)"
      using act_heap_frame(4) [OF rnd, of x q dt g] False by simp
    have a: "fst (listed ?g i x) = count_list rs x" using l2 c1 False by simp
    have b: "snd (listed ?g i x) \<le> count_list rs x" using l2 c2 False by simp
    have c: "count_list rs x = 0 \<or> health (heap ?g x) \<le> 0" using h hh False by auto
    have e: "is_Hero (cls_of x) \<longrightarrow> count_list rs x \<le> 1" using o False by simp
    show ?thesis unfolding doomed_def using nq' m' a b c e by blast
  qed
qed

lemma doomed_act_all:
  assumes "\<forall>k. 0 \<le> rnd k" and "doomed x i rs g"
  shows "doomed x i [] (act_all dt rnd k rs g)"
  using assms
proof (induction rs arbitrary: g k)
  case Nil
  then show ?case by simp
next
  case (Cons q rs)
  have "doomed x i rs (act dt (rnd k) q g)"
    using Cons.prems doomed_step [of "rnd k" x i q rs g dt] by blast
  then show ?case using Cons.IH [of "act dt (rnd k) q g" "Suc k"] Cons.prems(1) by simp
qed

lemma doomed_absent:
  assumes "doomed x i [] g"
  shows "x \<notin> set (map_units (game_map g))" and "x \<notin> set (units (players g i))"
proof -
  have "count_list (map_units (game_map g)) x = 0" "count_list (units (players g i)) x = 0"
    using assms by (simp_all add: doomed_def listed_def)
  then show "x \<notin> set (map_units (game_map g))" and "x \<notin> set (units (players g i))"
    using count_list_0_iff [of "map_units (game_map g)" x]
      count_list_0_iff [of "units (players g i)" x] by simp_all
qed

lemma new_unit_health: "health (new_unit c tm i sd) = maxHealth (new_unit c tm i sd)"
  by (cases c) (simp_all add: init_defs)

lemma new_unit_queue: "queue (new_unit c tm i sd) = []"
  by (cases c) (simp_all add: init_defs)

lemma new_unit_master: "master (new_unit c tm i sd) = i"
  by (cases c) (simp_all add: init_defs)

lemma dead_game_eval:
  "health (heap dead_game (Ref Spearman 0)) = 0"
  "health (heap dead_game x) \<le> maxHealth (heap dead_game x)"
  "queue (heap dead_game x) = []"
  "master (heap dead_game x) = HumanPlayer"
  "map_units (game_map dead_game) = [Ref Swordsman 0, Ref Spearman 0]"
  "units (players dead_game HumanPlayer) = [Ref Swordsman 0, Ref Spearman 0]"
  by (simp_all add: dead_game_def fresh_game_def upd_unit_def upd_player_def Let_def
      new_unit_health new_unit_queue new_unit_master init_defs)

lemma count_list_le_filter: "P r \<Longrightarrow> count_list xs r \<le> length (filter P xs)"
  by (induction xs) auto

lemma roster_inv_listing:
  assumes inv: "roster_inv g"
  shows "count_list (units (players g (master (heap g r)))) r
           \<le> count_list (map_units (game_map g)) r"
    and "is_Hero (cls_of r) \<Longrightarrow> count_list (map_units (game_map g)) r \<le> 1"
proof -
  let ?i = "master (heap g r)"
  have total: "count_list (map_units (game_map g)) r
       = count_list (units (players g HumanPlayer)) r
         + count_list (units (players g ComputerPlayer)) r"
    using inv by (simp add: roster_inv_def)
  show "count_list (units (players g ?i)) r \<le> count_list (map_units (game_map g)) r"
    using total by (cases ?i) simp_all
  assume hero: "is_Hero (cls_of r)"
  have own: "\<And>j. r \<in> set (units (players g j)) \<Longrightarrow> j = ?i"
    using inv by (auto simp add: roster_inv_def)
  have other: "\<And>j. j \<noteq> ?i \<Longrightarrow> count_list (units (players g j)) r = 0"
    using own count_list_0_iff [of _ r] by blast
  have one: "\<And>j. count_list (units (players g j)) r \<le> 1"
  proof -
    fix j
    have "count_list (units (players g j)) r
            \<le> length (filter (\<lambda>r. is_Hero (cls_of r)) (units (players g j)))"
      using hero by (rule count_list_le_filter [of "\<lambda>r. is_Hero (cls_of r)"])
    also have "\<dots> \<le> 1" using inv by (simp add: roster_inv_def hero_count_def)
    finally show "count_list (units (players g j)) r \<le> 1" .
  qed
  show "count_list (map_units (game_map g)) r \<le> 1"
  proof (cases ?i)
    case HumanPlayer
    then have "count_list (units (players g ComputerPlayer)) r = 0" using other by simp
    then show ?thesis using total one [of HumanPlayer] by simp
  next
    case ComputerPlayer
    then have "count_list (units (players g HumanPlayer)) r = 0" using other by simp
    then show ?thesis using total one [of ComputerPlayer] by simp
  qed
qed

text \<open>
  Claim C7.  Every constructor leaves \<^verbatim>\<open>health\<close> at most \<^verbatim>\<open>maxHealth\<close>, and the unit pass of
  \<^verbatim>\<open>Game.update\<close> (one \<^verbatim>\<open>act\<close> call for each unit of a snapshot of the map's list, the draws
  of \<^verbatim>\<open>random.randint(0, 1)\<close> being 0 or 1) keeps \<open>health \<le> maxHealth\<close> for every object; a
  hero's own \<^verbatim>\<open>act\<close> establishes it whatever the health was before, which is the clamp of the
  regeneration.  A unit \<open>r\<close> whose health is \<open>\<le> 0\<close> when its \<^verbatim>\<open>act\<close> is called loses one
  occurrence in the map's list and one in its owner's list (\<^verbatim>\<open>list.remove\<close>), provided it
  is not an order of its own queue.  A unit whose health is \<open>\<le> 0\<close> when the pass begins is in
  neither list when the pass ends, provided it is in no production queue (a queued order
  would be added again on completion), its owner does not list it more often than the map
  does, and a hero is on the map at most once (its regeneration could revive it between
  two of its \<^verbatim>\<open>act\<close> calls).  The last two provisos hold in every state with \<open>roster_inv\<close>,
  hence in every reachable one (\<open>roster_inv_listing\<close>, \<open>reachable_roster_inv\<close>).
\<close>

theorem health_capped_dead_removed:
  assumes rnd: "\<forall>k. rnd k \<in> {0, 1}"
  shows "health (new_unit c tm i sd) \<le> maxHealth (new_unit c tm i sd)
     \<and> (health (heap g x) \<le> maxHealth (heap g x) \<longrightarrow>
          health (heap (update_units dt rnd g) x) \<le> maxHealth (heap (update_units dt rnd g) x))
     \<and> (is_Hero (cls_of r) \<longrightarrow>
          health (heap (act dt (rnd k) r g) r) \<le> maxHealth (heap (act dt (rnd k) r g) r))
     \<and> (health (heap g r) \<le> 0 \<and> r \<notin> set (queue (heap g r)) \<longrightarrow>
          count_list (map_units (game_map (act dt (rnd k) r g))) r
            = count_list (map_units (game_map g)) r - 1
          \<and> count_list (units (players (act dt (rnd k) r g) (master (heap g r)))) r
            = count_list (units (players g (master (heap g r)))) r - 1)
     \<and> (health (heap g r) \<le> 0
          \<and> (\<forall>b. r \<notin> set (queue (heap g b)))
          \<and> count_list (units (players g (master (heap g r)))) r
               \<le> count_list (map_units (game_map g)) r
          \<and> (is_Hero (cls_of r) \<longrightarrow> count_list (map_units (game_map g)) r \<le> 1) \<longrightarrow>
          r \<notin> set (map_units (game_map (update_units dt rnd g)))
          \<and> r \<notin> set (units (players (update_units dt rnd g) (master (heap g r)))))"
proof -
  have pos: "\<forall>k. 0 \<le> rnd k"
  proof
    fix k
    have "rnd k \<in> {0, 1}" using rnd by simp
    then show "0 \<le> rnd k" by auto
  qed
  have a: "health (new_unit c tm i sd) \<le> maxHealth (new_unit c tm i sd)"
    by (simp add: new_unit_health)
  have b: "health (heap (update_units dt rnd g) x) \<le> maxHealth (heap (update_units dt rnd g) x)"
    if "health (heap g x) \<le> maxHealth (heap g x)"
    unfolding update_units_def using pos that by (rule act_all_health)
  have c: "health (heap (act dt (rnd k) r g) r) \<le> maxHealth (heap (act dt (rnd k) r g) r)"
    if "is_Hero (cls_of r)"
    using that by (simp add: act_def Hero_act_frame(5))
  have d: "count_list (map_units (game_map (act dt (rnd k) r g))) r
            = count_list (map_units (game_map g)) r - 1
          \<and> count_list (units (players (act dt (rnd k) r g) (master (heap g r)))) r
            = count_list (units (players g (master (heap g r)))) r - 1"
    if h: "health (heap g r) \<le> 0" and q: "r \<notin> set (queue (heap g r))"
  proof -
    have "listed (act dt (rnd k) r g) (master (heap g r)) r
            = listed (Unit_act r g) (master (heap g r)) r"
      using q by (rule listed_act)
    also have "\<dots> = (count_list (map_units (game_map g)) r - 1,
                       count_list (units (players g (master (heap g r)))) r - 1)"
      using h by (simp add: listed_Unit_act)
    finally show ?thesis by (simp add: listed_def)
  qed
  have e: "r \<notin> set (map_units (game_map (update_units dt rnd g)))
          \<and> r \<notin> set (units (players (update_units dt rnd g) (master (heap g r))))"
    if h: "health (heap g r) \<le> 0" and q: "\<forall>b. r \<notin> set (queue (heap g b))"
      and n: "count_list (units (players g (master (heap g r)))) r
               \<le> count_list (map_units (game_map g)) r"
      and o: "is_Hero (cls_of r) \<longrightarrow> count_list (map_units (game_map g)) r \<le> 1"
  proof -
    have "doomed r (master (heap g r)) (map_units (game_map g)) g"
      unfolding doomed_def listed_def using h q n o by simp
    then have "doomed r (master (heap g r)) [] (update_units dt rnd g)"
      unfolding update_units_def using pos doomed_act_all by blast
    then show ?thesis using doomed_absent by blast
  qed
  show ?thesis using a b c d e by blast
qed

theorem health_capped_dead_removed_witness:
  "health (heap dead_game (Ref Spearman 0)) \<le> 0
   \<and> Ref Spearman 0 \<in> set (map_units (game_map dead_game))
   \<and> Ref Spearman 0 \<in> set (units (players dead_game HumanPlayer))
   \<and> Ref Spearman 0 \<notin> set (map_units (game_map (update_units (1 / 60) (\<lambda>k. 0) dead_game)))
   \<and> Ref Spearman 0 \<notin> set (units (players (update_units (1 / 60) (\<lambda>k. 0) dead_game) HumanPlayer))
   \<and> health (heap (update_units (1 / 60) (\<lambda>k. 0) dead_game) (Ref Swordsman 0))
        \<le> maxHealth (heap (update_units (1 / 60) (\<lambda>k. 0) dead_game) (Ref Swordsman 0))"
  using health_capped_dead_removed
    [where rnd = "\<lambda>k. 0" and g = dead_game and r = "Ref Spearman 0" and dt = "1 / 60"
       and x = "Ref Swordsman 0" and c = Spearman and tm = 1 and i = HumanPlayer and sd = 0
       and k = 0]
  by (simp add: dead_game_eval)

end
